theory Spec2Isabelle
  imports Main
begin

section \<open>Requests, responses and the datastore\<close>

text \<open>
  The controllers are asynchronous request handlers over a relational datastore reached
  through an ORM. A handler is modelled as a function from the environment of the request,
  the request and the datastore to the response it sends (if any) and the datastore it
  leaves behind.

  Requests are served one after the other; the datastore is the only state they share.

  A field of a JSON request body is either absent (\<open>undefined\<close> after destructuring)
  or given with a value of the field's type. Explicit \<open>null\<close>s and ill-typed values
  are outside the model: what the datastore does with them is decided by the column
  declarations of \<open>models/*.js\<close>, which are not among the sources. Primary keys
  and user ids are natural numbers, in the request as in the datastore.
\<close>

datatype 'a jsfield = Undefined | Given 'a

text \<open>
  \<open>instance.update(values)\<close> of the ORM leaves out the keys whose value is
  \<open>undefined\<close> and writes the others.
\<close>

fun upd :: "'a jsfield \<Rightarrow> 'a \<Rightarrow> 'a" where
  "upd Undefined old = old"
| "upd (Given v) old = v"

fun upd_null :: "'a jsfield \<Rightarrow> 'a option \<Rightarrow> 'a option" where
  "upd_null Undefined old = old"
| "upd_null (Given v) old = Some v"

text \<open>
  \<open>stored != requested\<close> for a stored id and a request field: JavaScript's loose
  inequality holds between a value and \<open>undefined\<close>, and between two different ids.
\<close>

fun loose_neq :: "nat \<Rightarrow> nat jsfield \<Rightarrow> bool" where
  "loose_neq stored Undefined = True"
| "loose_neq stored (Given v) = (stored \<noteq> v)"

subsection \<open>Rows\<close>

text \<open>Dates are milliseconds since the epoch; a nullable column is an \<open>option\<close>.\<close>

text \<open>
  Modelled from the spec: which columns of a task can be null (the declarations of
  \<open>models/task.model.js\<close> are not among the sources). The data model of the spec
  gives the start date as the nullable column of a task; the assignee, whom
  \<open>createTask\<close> requires to exist, is an id. The columns that \<open>createTask\<close>
  fills from optional fields of the body are nullable.
\<close>

record task =
  task_id :: nat
  task_name :: "string option"
  description :: "string option"
  priority :: "string option"
  dueDate :: "int option"
  difficulty :: "string option"
  projectId :: nat
  assigneeId :: nat
  createdBy :: "nat option"
  status :: string
  started_date :: "int option"
  exception :: bool

record completed_task =
  c_id :: nat
  c_task_id :: nat
  c_user_id :: nat
  c_project_id :: nat
  c_started_date :: "int option"
  c_completed_date :: int
  hours :: int

record project =
  project_id :: nat
  project_organizationId :: nat

record project_member =
  pm_id :: nat
  pm_userId :: nat
  pm_projectId :: nat
  pm_role :: string

record user =
  user_id :: nat
  user_name :: string
  user_email :: string

record organization =
  org_id :: nat
  org_name :: "string option"
  org_description :: "string option"

record organization_member =
  om_id :: nat
  om_organizationId :: nat
  om_userId :: nat
  om_role :: string

record invite =
  inv_id :: nat
  inv_organizationId :: nat
  inv_email :: string
  inv_userId :: nat
  inv_secret :: string

record session =
  s_id :: nat
  s_userId :: nat
  valid :: bool

text \<open>
  The datastore: one list of rows per table, in insertion order, and the counter from
  which the datastore draws the primary key of a created row.
\<close>

record db =
  tasks :: "task list"
  completed_tasks :: "completed_task list"
  projects :: "project list"
  project_members :: "project_member list"
  users :: "user list"
  organizations :: "organization list"
  organization_members :: "organization_member list"
  invites :: "invite list"
  sessions :: "session list"
  next_id :: nat

subsection \<open>The environment of a request\<close>

text \<open>
  What a handler reads from outside the request and the datastore: the clock
  (\<open>new Date()\<close>; \<open>completeTask\<close> reads it a second time for the completion
  date), the value of \<open>uuidv4()\<close>, and whether one of the awaited datastore calls
  throws. The calls of a request are counted from 0 in the order the handler makes them;
  \<open>throws_at = Some k\<close> makes call \<open>k\<close> throw an error with message
  \<open>throws_msg\<close>, which the handler's \<open>catch\<close> turns into a 500 response.
\<close>

record env =
  now :: int
  now_completed :: int
  uuid :: string
  throws_at :: "nat option"
  throws_msg :: string

definition thrown :: "env \<Rightarrow> nat \<Rightarrow> bool" where
  "thrown e k = (throws_at e = Some k)"

subsection \<open>Responses\<close>

datatype payload =
  TaskData task
| CompletedTaskData completed_task
| OrganizationData organization
| MemberData organization_member
| InviteData invite

text \<open>
  The JSON object a handler sends, with its HTTP status. \<open>success = None\<close> and
  \<open>data = None\<close> say that the object has no such key. A handler that returns
  without sending anything yields no response at all.
\<close>

record response =
  code :: nat
  success :: "bool option"
  message :: string
  data :: "payload option"

definition failure :: "nat \<Rightarrow> string \<Rightarrow> response" where
  "failure c m = \<lparr>code = c, success = Some False, message = m, data = None\<rparr>"

definition ok :: "string \<Rightarrow> payload option \<Rightarrow> response" where
  "ok m d = \<lparr>code = 200, success = Some True, message = m, data = d\<rparr>"

definition internal :: "env \<Rightarrow> response" where
  "internal e = failure 500 (throws_msg e)"

subsection \<open>Queries\<close>

definition findByPk_task :: "task list \<Rightarrow> nat \<Rightarrow> task option" where
  "findByPk_task ts k = find (\<lambda>t. task_id t = k) ts"

definition findByPk_project :: "project list \<Rightarrow> nat \<Rightarrow> project option" where
  "findByPk_project ps k = find (\<lambda>p. project_id p = k) ps"

definition findByPk_user :: "user list \<Rightarrow> nat \<Rightarrow> user option" where
  "findByPk_user us k = find (\<lambda>u. user_id u = k) us"

definition findOne_project_member ::
  "project_member list \<Rightarrow> nat \<Rightarrow> nat \<Rightarrow> project_member option" where
  "findOne_project_member ms uid pid =
     find (\<lambda>m. pm_userId m = uid \<and> pm_projectId m = pid) ms"

text \<open>\<open>task.update\<close> and \<open>task.destroy\<close> act on the row with the instance's key.\<close>

definition save_task :: "task \<Rightarrow> task list \<Rightarrow> task list" where
  "save_task t ts = map (\<lambda>r. if task_id r = task_id t then t else r) ts"

definition destroy_task :: "task \<Rightarrow> task list \<Rightarrow> task list" where
  "destroy_task t ts = filter (\<lambda>r. task_id r \<noteq> task_id t) ts"

section \<open>The task controller\<close>

text \<open>
  The authorization test shared by \<open>deleteTask\<close>, \<open>updateTask\<close> and
  \<open>completeTask\<close>:
  \<^verbatim>\<open>!projectMember || (userId !== task.assigneeId &&
     projectMember.role !== "owner" && userId !== task.createdBy)\<close>
\<close>

definition unauthorized :: "nat \<Rightarrow> task \<Rightarrow> project_member option \<Rightarrow> bool" where
  "unauthorized userId t projectMember =
     (case projectMember of
        None \<Rightarrow> True
      | Some m \<Rightarrow> userId \<noteq> assigneeId t \<and> pm_role m \<noteq> ''owner'' \<and> Some userId \<noteq> createdBy t)"

subsection \<open>createTask\<close>

record create_task_req =
  ct_user :: nat
  ct_assigneeId :: nat
  ct_projectId :: nat
  ct_name :: "string jsfield"
  ct_description :: "string jsfield"
  ct_priority :: "string jsfield"
  ct_dueDate :: "int jsfield"
  ct_difficulty :: "string jsfield"
  ct_createdBy :: "nat jsfield"

text \<open>
  Modelled from the spec: the column defaults of the Task model
  (\<open>models/task.model.js\<close>, not among the sources). \<open>Task.create\<close> is called
  without status, start date and exception flag; the spec has a new task start in status
  todo with no start date, and the exception flag unset.
\<close>

definition new_task :: "nat \<Rightarrow> create_task_req \<Rightarrow> task" where
  "new_task k req =
     \<lparr>task_id = k,
      task_name = upd_null (ct_name req) None,
      description = upd_null (ct_description req) None,
      priority = upd_null (ct_priority req) None,
      dueDate = upd_null (ct_dueDate req) None,
      difficulty = upd_null (ct_difficulty req) None,
      projectId = ct_projectId req,
      assigneeId = ct_assigneeId req,
      createdBy = upd_null (ct_createdBy req) None,
      status = ''todo'',
      started_date = None,
      exception = False\<rparr>"

definition createTask :: "env \<Rightarrow> create_task_req \<Rightarrow> db \<Rightarrow> response option \<times> db" where
  "createTask e req d =
    (if thrown e 0 then (Some (internal e), d) else
     case findOne_project_member (project_members d) (ct_user req) (ct_projectId req) of
       None \<Rightarrow> (Some (failure 403 ''You are not a member of this project''), d)
     | Some projectMember \<Rightarrow>
     (if thrown e 1 then (Some (internal e), d) else
      case findOne_project_member (project_members d) (ct_assigneeId req) (ct_projectId req) of
        None \<Rightarrow> (Some (failure 403 ''The assignee is not a member of this project''), d)
      | Some assigneeMember \<Rightarrow>
      (if thrown e 2 then (Some (internal e), d) else
       case findByPk_project (projects d) (ct_projectId req) of
         None \<Rightarrow> (Some (failure 404 ''Project not found''), d)
       | Some p \<Rightarrow>
       (if thrown e 3 then (Some (internal e), d) else
        case findByPk_user (users d) (ct_assigneeId req) of
          None \<Rightarrow> (Some (failure 404 ''User not found''), d)
        | Some u \<Rightarrow>
        (if thrown e 4 then (Some (internal e), d) else
         let newTask = new_task (next_id d) req in
         (Some (ok ''Task created successfully'' (Some (TaskData newTask))),
          d\<lparr>tasks := tasks d @ [newTask], next_id := Suc (next_id d)\<rparr>))))))"

subsection \<open>deleteTask\<close>

record task_req =
  t_id :: nat
  t_user :: nat

definition deleteTask :: "env \<Rightarrow> task_req \<Rightarrow> db \<Rightarrow> response option \<times> db" where
  "deleteTask e req d =
    (if thrown e 0 then (Some (internal e), d) else
     case findByPk_task (tasks d) (t_id req) of
       None \<Rightarrow> (Some (failure 404 ''Task not found''), d)
     | Some t \<Rightarrow>
     if thrown e 1 then (Some (internal e), d) else
     let projectMember = findOne_project_member (project_members d) (t_user req) (projectId t) in
     if unauthorized (t_user req) t projectMember
     then (Some (failure 403 ''You are not authorized to perform this action.''), d)
     else if thrown e 2 then (Some (internal e), d)
     else (Some (ok ''Task deleted successfully'' None), d\<lparr>tasks := destroy_task t (tasks d)\<rparr>))"

subsection \<open>updateTask\<close>

text \<open>
  The body of an update request. The handler destructures the nine fields it passes on;
  a \<open>started_date\<close> in the body is never read.
\<close>

record update_task_req =
  u_id :: nat
  u_user :: nat
  u_name :: "string jsfield"
  u_description :: "string jsfield"
  u_priority :: "string jsfield"
  u_dueDate :: "int jsfield"
  u_difficulty :: "string jsfield"
  u_assigneeId :: "nat jsfield"
  u_projectId :: "nat jsfield"
  u_exception :: "bool jsfield"
  u_status :: "string jsfield"
  u_started_date :: "int jsfield"

text \<open>The eight fields every branch of \<open>updateTask\<close> writes the same way.\<close>

definition update_fields :: "update_task_req \<Rightarrow> task \<Rightarrow> task" where
  "update_fields req t =
     t\<lparr>task_name := upd_null (u_name req) (task_name t),
       description := upd_null (u_description req) (description t),
       priority := upd_null (u_priority req) (priority t),
       dueDate := upd_null (u_dueDate req) (dueDate t),
       difficulty := upd_null (u_difficulty req) (difficulty t),
       assigneeId := upd (u_assigneeId req) (assigneeId t),
       projectId := upd (u_projectId req) (projectId t),
       exception := upd (u_exception req) (exception t)\<rparr>"

definition updated :: "task \<Rightarrow> db \<Rightarrow> response option \<times> db" where
  "updated t d =
     (Some (ok ''Task updated successfully'' (Some (TaskData t))),
      d\<lparr>tasks := save_task t (tasks d)\<rparr>)"

text \<open>The update that ends the handler when no special case applies.\<close>

definition plain_update :: "env \<Rightarrow> update_task_req \<Rightarrow> task \<Rightarrow> db \<Rightarrow> response option \<times> db" where
  "plain_update e req t d =
    (if thrown e 2 then (Some (internal e), d)
     else updated ((update_fields req t)\<lparr>status := upd (u_status req) (status t)\<rparr>) d)"

definition updateTask :: "env \<Rightarrow> update_task_req \<Rightarrow> db \<Rightarrow> response option \<times> db" where
  "updateTask e req d =
    (if thrown e 0 then (Some (internal e), d) else
     case findByPk_task (tasks d) (u_id req) of
       None \<Rightarrow> (Some (failure 404 ''Task not found.''), d)
     | Some t \<Rightarrow>
     if thrown e 1 then (Some (internal e), d) else
     let projectMember = findOne_project_member (project_members d) (u_user req) (projectId t) in
     if unauthorized (u_user req) t projectMember
     then (Some (failure 403 ''You are not authorized to perform this action.''), d)
     else if status t = ''completed''
     then (Some (failure 403 ''Task is already completed. Please open another task.''), d)
     else if loose_neq (assigneeId t) (u_assigneeId req)
     then
       (if thrown e 2 then (Some (internal e), d)
        else updated ((update_fields req t)\<lparr>status := ''todo'', started_date := None\<rparr>) d)
     else if u_status req = Given ''in-progress''
     then
       (if status t = ''in-progress''
        then (Some (failure 403 ''Task is already in progress.''), d)
        else if started_date t = None
        then
          (if thrown e 2 then (Some (internal e), d)
           else updated ((update_fields req t)
                  \<lparr>status := ''in-progress'', started_date := Some (now e)\<rparr>) d)
        else plain_update e req t d)
     else plain_update e req t d)"

subsection \<open>completeTask\<close>

text \<open>
  \<open>new Date() - task.started_date\<close>: a date converts to its milliseconds and
  \<open>null\<close> to 0. The quotient by the milliseconds of an hour is floored. The code
  computes in double precision, which is exact as long as the difference stays below
  \<open>2^53\<close> milliseconds (some 285,000 years); the model computes in the integers
  and follows the code in that range only.
\<close>

fun date_number :: "int option \<Rightarrow> int" where
  "date_number None = 0"
| "date_number (Some ms) = ms"

definition diffInHours :: "env \<Rightarrow> task \<Rightarrow> int" where
  "diffInHours e t = \<bar>now e - date_number (started_date t)\<bar> div (1000 * 60 * 60)"

text \<open>
  The two writes that end \<open>completeTask\<close>, as datastore calls \<open>k\<close> and
  \<open>k + 1\<close> of the request: \<open>CompletedTask.create\<close>, then the update of
  the status.
\<close>

definition record_completion ::
  "env \<Rightarrow> nat \<Rightarrow> task_req \<Rightarrow> task \<Rightarrow> int \<Rightarrow> db \<Rightarrow> response option \<times> db" where
  "record_completion e k req t h d =
    (if thrown e k then (Some (internal e), d) else
     let completedTask =
           \<lparr>c_id = next_id d, c_task_id = t_id req, c_user_id = t_user req,
            c_project_id = projectId t, c_started_date = started_date t,
            c_completed_date = now_completed e, hours = h\<rparr>;
         d1 = d\<lparr>completed_tasks := completed_tasks d @ [completedTask],
                next_id := Suc (next_id d)\<rparr>
     in
     if thrown e (Suc k) then (Some (internal e), d1)
     else (Some (ok ''Task completed successfully'' (Some (CompletedTaskData completedTask))),
           d1\<lparr>tasks := save_task (t\<lparr>status := ''completed''\<rparr>) (tasks d1)\<rparr>))"

definition completeTask :: "env \<Rightarrow> task_req \<Rightarrow> db \<Rightarrow> response option \<times> db" where
  "completeTask e req d =
    (if thrown e 0 then (Some (internal e), d) else
     case findByPk_task (tasks d) (t_id req) of
       None \<Rightarrow> (Some (failure 404 ''Task not found.''), d)
     | Some t \<Rightarrow>
     if status t \<noteq> ''in-progress''
     then (Some (failure 403 ''Task is not in progress. First make it in progress.''), d)
     else if thrown e 1 then (Some (internal e), d) else
     let projectMember = findOne_project_member (project_members d) (t_user req) (projectId t) in
     if unauthorized (t_user req) t projectMember
     then (Some (failure 403 ''You are not authorized to perform this action.''), d)
     else
       let h = diffInHours e t in
       if h = 0
       then
         (if thrown e 2 then (Some (internal e), d)
          else
            let t1 = t\<lparr>exception := True\<rparr> in
            record_completion e 3 req t1 h (d\<lparr>tasks := save_task t1 (tasks d)\<rparr>))
       else record_completion e 2 req t h d)"

section \<open>The organization controller\<close>

definition findByPk_organization :: "organization list \<Rightarrow> nat \<Rightarrow> organization option" where
  "findByPk_organization os k = find (\<lambda>x. org_id x = k) os"

definition findOne_organization_member ::
  "organization_member list \<Rightarrow> nat \<Rightarrow> nat \<Rightarrow> organization_member option" where
  "findOne_organization_member ms oid uid =
     find (\<lambda>m. om_organizationId m = oid \<and> om_userId m = uid) ms"

definition findOne_user_email :: "user list \<Rightarrow> string \<Rightarrow> user option" where
  "findOne_user_email us em = find (\<lambda>u. user_email u = em) us"

definition findOne_invite :: "invite list \<Rightarrow> string \<Rightarrow> nat \<Rightarrow> invite option" where
  "findOne_invite rows sec uid = find (\<lambda>i. inv_secret i = sec \<and> inv_userId i = uid) rows"

definition findAll_owners :: "organization_member list \<Rightarrow> nat \<Rightarrow> organization_member list" where
  "findAll_owners ms oid = filter (\<lambda>m. om_organizationId m = oid \<and> om_role m = ''owner'') ms"

definition save_organization :: "organization \<Rightarrow> organization list \<Rightarrow> organization list" where
  "save_organization x os = map (\<lambda>r. if org_id r = org_id x then x else r) os"

definition destroy_organization :: "organization \<Rightarrow> organization list \<Rightarrow> organization list" where
  "destroy_organization x os = filter (\<lambda>r. org_id r \<noteq> org_id x) os"

definition save_member ::
  "organization_member \<Rightarrow> organization_member list \<Rightarrow> organization_member list" where
  "save_member m ms = map (\<lambda>r. if om_id r = om_id m then m else r) ms"

definition destroy_member ::
  "organization_member \<Rightarrow> organization_member list \<Rightarrow> organization_member list" where
  "destroy_member m ms = filter (\<lambda>r. om_id r \<noteq> om_id m) ms"

definition destroy_invite :: "invite \<Rightarrow> invite list \<Rightarrow> invite list" where
  "destroy_invite i rows = filter (\<lambda>r. inv_id r \<noteq> inv_id i) rows"

text \<open>
  The test that opens every owner-only handler:
  \<^verbatim>\<open>!currentUser || currentUser.role !== "owner"\<close>
\<close>

definition not_owner :: "organization_member option \<Rightarrow> bool" where
  "not_owner currentUser =
     (case currentUser of None \<Rightarrow> True | Some m \<Rightarrow> om_role m \<noteq> ''owner'')"

subsection \<open>createOrganization\<close>

record create_organization_req =
  co_user :: nat
  co_name :: "string jsfield"
  co_description :: "string jsfield"

definition createOrganization ::
  "env \<Rightarrow> create_organization_req \<Rightarrow> db \<Rightarrow> response option \<times> db" where
  "createOrganization e req d =
    (if thrown e 0 then (Some (internal e), d) else
     let newOrganization =
           \<lparr>org_id = next_id d, org_name = upd_null (co_name req) None,
            org_description = upd_null (co_description req) None\<rparr>;
         d1 = d\<lparr>organizations := organizations d @ [newOrganization],
                next_id := Suc (next_id d)\<rparr>
     in
     if thrown e 1 then (Some (internal e), d1) else
     (Some (ok ''Organization created successfully'' (Some (OrganizationData newOrganization))),
      d1\<lparr>organization_members := organization_members d1 @
             [\<lparr>om_id = next_id d1, om_organizationId = org_id newOrganization,
               om_userId = co_user req, om_role = ''owner''\<rparr>],
          next_id := Suc (next_id d1)\<rparr>))"

subsection \<open>deleteOrganization\<close>

record organization_req =
  o_id :: nat
  o_user :: nat

text \<open>
  The success response and the 500 response of \<open>deleteOrganization\<close> are objects
  with a \<open>message\<close> only.
\<close>

definition deleteOrganization ::
  "env \<Rightarrow> organization_req \<Rightarrow> db \<Rightarrow> response option \<times> db" where
  "deleteOrganization e req d =
    (let caught = \<lparr>code = 500, success = None, message = throws_msg e, data = None\<rparr> in
     if thrown e 0 then (Some caught, d) else
     if not_owner (findOne_organization_member (organization_members d) (o_id req) (o_user req))
     then (Some (failure 403 ''You are unauthorized.''), d)
     else if thrown e 1 then (Some caught, d) else
     case findByPk_organization (organizations d) (o_id req) of
       None \<Rightarrow> (Some (failure 404 ''Organization not found''), d)
     | Some x \<Rightarrow>
     if thrown e 2 then (Some caught, d) else
     (Some \<lparr>code = 200, success = None, message = ''Organization deleted successfully'',
            data = None\<rparr>,
      d\<lparr>organizations := destroy_organization x (organizations d)\<rparr>))"

subsection \<open>updateOrganization\<close>

record update_organization_req =
  uo_id :: nat
  uo_user :: nat
  uo_name :: "string jsfield"
  uo_description :: "string jsfield"

definition updateOrganization ::
  "env \<Rightarrow> update_organization_req \<Rightarrow> db \<Rightarrow> response option \<times> db" where
  "updateOrganization e req d =
    (if thrown e 0 then (Some (internal e), d) else
     if not_owner (findOne_organization_member (organization_members d) (uo_id req) (uo_user req))
     then (Some (failure 403 ''You are unauthorized.''), d)
     else if thrown e 1 then (Some (internal e), d) else
     case findByPk_organization (organizations d) (uo_id req) of
       None \<Rightarrow>
         (Some \<lparr>code = 404, success = None, message = ''Organization not found'', data = None\<rparr>,
          d)
     | Some x \<Rightarrow>
     if thrown e 2 then (Some (internal e), d) else
     let x1 = x\<lparr>org_name := upd_null (uo_name req) (org_name x),
                org_description := upd_null (uo_description req) (org_description x)\<rparr>
     in (Some (ok ''Organization updated successfully'' (Some (OrganizationData x1))),
         d\<lparr>organizations := save_organization x1 (organizations d)\<rparr>))"

subsection \<open>inviteUserToOrganization\<close>

record invite_req =
  i_id :: nat
  i_user :: nat
  i_email :: string

text \<open>
  The mail is handed to the mail service after the invite is stored; its promise is not
  awaited and its failure is only logged, so it is no part of the result.
\<close>

definition inviteUserToOrganization ::
  "env \<Rightarrow> invite_req \<Rightarrow> db \<Rightarrow> response option \<times> db" where
  "inviteUserToOrganization e req d =
    (if thrown e 0 then (Some (internal e), d) else
     if not_owner (findOne_organization_member (organization_members d) (i_id req) (i_user req))
     then (Some (failure 401 ''You are unauthorized to perform this action.''), d)
     else if thrown e 1 then (Some (internal e), d) else
     case findOne_user_email (users d) (i_email req) of
       None \<Rightarrow> (Some (failure 404 ''User with this email not found in our records.''), d)
     | Some u \<Rightarrow>
     (if thrown e 2 then (Some (internal e), d) else
      case findOne_organization_member (organization_members d) (i_id req) (user_id u) of
        Some organizationMember \<Rightarrow>
          (Some (failure 400 ''User is already a member of the organization''), d)
      | None \<Rightarrow>
      (let secret = uuid e in
       if thrown e 3 then (Some (internal e), d) else
       let invite = \<lparr>inv_id = next_id d, inv_organizationId = i_id req,
                     inv_email = i_email req, inv_userId = user_id u, inv_secret = secret\<rparr>
       in (Some (ok ''User invited successfully'' (Some (InviteData invite))),
           d\<lparr>invites := invites d @ [invite], next_id := Suc (next_id d)\<rparr>))))"

subsection \<open>acceptInvitation and rejectInvitation\<close>

record invitation_req =
  a_secret :: string
  a_user :: nat

definition acceptInvitation ::
  "env \<Rightarrow> invitation_req \<Rightarrow> db \<Rightarrow> response option \<times> db" where
  "acceptInvitation e req d =
    (if thrown e 0 then (Some (internal e), d) else
     case findOne_invite (invites d) (a_secret req) (a_user req) of
       None \<Rightarrow> (Some (failure 404 ''Invite not found''), d)
     | Some invite \<Rightarrow>
     if thrown e 1 then (Some (internal e), d) else
     let organizationMember =
           \<lparr>om_id = next_id d, om_organizationId = inv_organizationId invite,
            om_userId = inv_userId invite, om_role = ''member''\<rparr>;
         d1 = d\<lparr>organization_members := organization_members d @ [organizationMember],
                next_id := Suc (next_id d)\<rparr>
     in
     if thrown e 2 then (Some (internal e), d1) else
     (Some (ok ''Invite accepted successfully.'' (Some (MemberData organizationMember))),
      d1\<lparr>invites := destroy_invite invite (invites d1)\<rparr>))"

text \<open>
  After the invite is destroyed, \<open>rejectInvitation\<close> builds its success response
  from \<open>organizationMember\<close>, a name that is declared nowhere in the function or the
  module. Evaluating it throws a ReferenceError, which the \<open>catch\<close> of the handler
  answers with a 500.
\<close>

definition rejectInvitation ::
  "env \<Rightarrow> invitation_req \<Rightarrow> db \<Rightarrow> response option \<times> db" where
  "rejectInvitation e req d =
    (if thrown e 0 then (Some (internal e), d) else
     case findOne_invite (invites d) (a_secret req) (a_user req) of
       None \<Rightarrow> (Some (failure 404 ''Invite not found''), d)
     | Some invite \<Rightarrow>
     if thrown e 1 then (Some (internal e), d) else
     (Some (failure 500 ''organizationMember is not defined''),
      d\<lparr>invites := destroy_invite invite (invites d)\<rparr>))"

subsection \<open>removeOrganizationMember\<close>

record remove_member_req =
  r_id :: nat
  r_user :: nat
  r_userId :: nat

definition removeOrganizationMember ::
  "env \<Rightarrow> remove_member_req \<Rightarrow> db \<Rightarrow> response option \<times> db" where
  "removeOrganizationMember e req d =
    (if thrown e 0 then (Some (internal e), d) else
     if not_owner (findOne_organization_member (organization_members d) (r_id req) (r_user req))
     then (Some (failure 401 ''You are unauthorized to perform this action.''), d)
     else if thrown e 1 then (Some (internal e), d) else
     case findOne_organization_member (organization_members d) (r_id req) (r_userId req) of
       None \<Rightarrow> (Some (failure 400 ''User is not a member of the organization''), d)
     | Some organizationMember \<Rightarrow>
     if om_role organizationMember = ''owner''
     then (Some (failure 400 ''You cannot remove an owner of the organization.''), d)
     else if thrown e 2 then (Some (internal e), d) else
     let owners = findAll_owners (organization_members d) (r_id req) in
     if length owners = 1
     then (Some (failure 400 ''You cannot remove the last owner of the organization.''), d)
     else if thrown e 3 then (Some (internal e), d) else
     (Some (ok ''User removed from the organization successfully.'' None),
      d\<lparr>organization_members := destroy_member organizationMember (organization_members d)\<rparr>))"

subsection \<open>updateOrganizationMember\<close>

record update_member_req =
  m_id :: nat
  m_user :: nat
  m_userId :: nat
  m_role :: "string jsfield"

text \<open>
  After the role is written the function ends: no response is sent on this path.
\<close>

definition updateOrganizationMember ::
  "env \<Rightarrow> update_member_req \<Rightarrow> db \<Rightarrow> response option \<times> db" where
  "updateOrganizationMember e req d =
    (if thrown e 0 then (Some (internal e), d) else
     if not_owner (findOne_organization_member (organization_members d) (m_id req) (m_user req))
     then (Some (failure 401 ''You are unauthorized to perform this action.''), d)
     else if thrown e 1 then (Some (internal e), d) else
     case findOne_organization_member (organization_members d) (m_id req) (m_userId req) of
       None \<Rightarrow> (Some (failure 400 ''User is not a member of the organization''), d)
     | Some organizationMember \<Rightarrow>
     if thrown e 2 then (Some (internal e), d) else
     (None,
      d\<lparr>organization_members :=
           save_member (organizationMember\<lparr>om_role := upd (m_role req) (om_role organizationMember)\<rparr>)
             (organization_members d)\<rparr>))"

section \<open>Sessions\<close>

text \<open>
  \<open>getSession\<close> calls \<open>Session.findOne\<close> without awaiting it, so
  \<open>session\<close> is the pending promise of the query, not its row. A promise is an
  object, which is truthy, and it has no property \<open>valid\<close>:
  \<^verbatim>\<open>return session && session.valid ? session : null;\<close>
\<close>

datatype 'a promise = Promise 'a

definition findOne_session :: "session list \<Rightarrow> nat \<Rightarrow> session option" where
  "findOne_session ss k = find (\<lambda>s. s_id s = k) ss"

definition promise_truthy :: "'a promise \<Rightarrow> bool" where
  "promise_truthy p = True"

definition promise_valid :: "'a promise \<Rightarrow> bool jsfield" where
  "promise_valid p = Undefined"

fun truthy :: "bool jsfield \<Rightarrow> bool" where
  "truthy Undefined = False"
| "truthy (Given b) = b"

definition getSession :: "db \<Rightarrow> nat \<Rightarrow> session option promise option" where
  "getSession d sessionId =
    (let session = Promise (findOne_session (sessions d) sessionId) in
     if promise_truthy session \<and> truthy (promise_valid session) then Some session else None)"

section \<open>Operations and runs\<close>

datatype operation =
  CreateTask env create_task_req
| DeleteTask env task_req
| UpdateTask env update_task_req
| CompleteTask env task_req
| CreateOrganization env create_organization_req
| DeleteOrganization env organization_req
| UpdateOrganization env update_organization_req
| InviteUserToOrganization env invite_req
| AcceptInvitation env invitation_req
| RejectInvitation env invitation_req
| RemoveOrganizationMember env remove_member_req
| UpdateOrganizationMember env update_member_req

fun step :: "operation \<Rightarrow> db \<Rightarrow> response option \<times> db" where
  "step (CreateTask e r) d = createTask e r d"
| "step (DeleteTask e r) d = deleteTask e r d"
| "step (UpdateTask e r) d = updateTask e r d"
| "step (CompleteTask e r) d = completeTask e r d"
| "step (CreateOrganization e r) d = createOrganization e r d"
| "step (DeleteOrganization e r) d = deleteOrganization e r d"
| "step (UpdateOrganization e r) d = updateOrganization e r d"
| "step (InviteUserToOrganization e r) d = inviteUserToOrganization e r d"
| "step (AcceptInvitation e r) d = acceptInvitation e r d"
| "step (RejectInvitation e r) d = rejectInvitation e r d"
| "step (RemoveOrganizationMember e r) d = removeOrganizationMember e r d"
| "step (UpdateOrganizationMember e r) d = updateOrganizationMember e r d"

text \<open>The datastore after a sequence of requests, served one after the other.\<close>

fun run :: "operation list \<Rightarrow> db \<Rightarrow> db" where
  "run [] d = d"
| "run (x # xs) d = run xs (snd (step x d))"

fun env_of :: "operation \<Rightarrow> env" where
  "env_of (CreateTask e r) = e"
| "env_of (DeleteTask e r) = e"
| "env_of (UpdateTask e r) = e"
| "env_of (CompleteTask e r) = e"
| "env_of (CreateOrganization e r) = e"
| "env_of (DeleteOrganization e r) = e"
| "env_of (UpdateOrganization e r) = e"
| "env_of (InviteUserToOrganization e r) = e"
| "env_of (AcceptInvitation e r) = e"
| "env_of (RejectInvitation e r) = e"
| "env_of (RemoveOrganizationMember e r) = e"
| "env_of (UpdateOrganizationMember e r) = e"

text \<open>
  The secret an operation can put on a new invite: \<open>inviteUserToOrganization\<close>
  stores the value of \<open>uuidv4()\<close>; no other handler creates an invite.
\<close>

fun issued_secret :: "operation \<Rightarrow> string option" where
  "issued_secret (InviteUserToOrganization e r) = Some (uuid e)"
| "issued_secret x = None"

section \<open>Invariants of the datastore\<close>

text \<open>
  Primary keys are drawn from the counter, so every task that exists has a key below it.
\<close>

definition fresh_keys :: "db \<Rightarrow> bool" where
  "fresh_keys d = (\<forall>t\<in>set (tasks d). task_id t < next_id d)"

text \<open>
  At most one completion record per task: task keys are unique and below the counter, no
  two completion records name the same task, and a task that has a completion record and
  still exists is completed.
\<close>

definition one_completion :: "db \<Rightarrow> bool" where
  "one_completion d =
     (distinct (map task_id (tasks d)) \<and>
      distinct (map c_task_id (completed_tasks d)) \<and>
      (\<forall>t\<in>set (tasks d). task_id t < next_id d) \<and>
      (\<forall>c\<in>set (completed_tasks d). c_task_id c < next_id d) \<and>
      (\<forall>c\<in>set (completed_tasks d). \<forall>t\<in>set (tasks d).
         task_id t = c_task_id c \<longrightarrow> status t = ''completed''))"

section \<open>A small datastore for concrete runs\<close>

text \<open>
  The datastore before the first request (\<open>empty_db\<close>), and one with one
  organization (5) with owner Ada (user 1) and member Bob (user 2), a pending invite
  for Eve (user 3), one project (7) of which all three are members and Ada the owner, a
  valid session of Ada, and the tasks given as argument. The example task (40) was
  created by Ada and is assigned to Bob.
\<close>

definition example_task :: "string \<Rightarrow> int option \<Rightarrow> task" where
  "example_task st sd =
     \<lparr>task_id = 40, task_name = Some ''report'', description = None, priority = None,
      dueDate = None, difficulty = None, projectId = 7, assigneeId = 2, createdBy = Some 1,
      status = st, started_date = sd, exception = False\<rparr>"

definition example_db :: "task list \<Rightarrow> db" where
  "example_db ts =
     \<lparr>tasks = ts,
      completed_tasks = [],
      projects = [\<lparr>project_id = 7, project_organizationId = 5\<rparr>],
      project_members =
        [\<lparr>pm_id = 10, pm_userId = 1, pm_projectId = 7, pm_role = ''owner''\<rparr>,
         \<lparr>pm_id = 11, pm_userId = 2, pm_projectId = 7, pm_role = ''member''\<rparr>,
         \<lparr>pm_id = 12, pm_userId = 3, pm_projectId = 7, pm_role = ''member''\<rparr>],
      users =
        [\<lparr>user_id = 1, user_name = ''Ada'', user_email = ''ada@example.org''\<rparr>,
         \<lparr>user_id = 2, user_name = ''Bob'', user_email = ''bob@example.org''\<rparr>,
         \<lparr>user_id = 3, user_name = ''Eve'', user_email = ''eve@example.org''\<rparr>],
      organizations = [\<lparr>org_id = 5, org_name = Some ''Acme'', org_description = None\<rparr>],
      organization_members =
        [\<lparr>om_id = 20, om_organizationId = 5, om_userId = 1, om_role = ''owner''\<rparr>,
         \<lparr>om_id = 21, om_organizationId = 5, om_userId = 2, om_role = ''member''\<rparr>],
      invites =
        [\<lparr>inv_id = 30, inv_organizationId = 5, inv_email = ''eve@example.org'',
          inv_userId = 3, inv_secret = ''s-1''\<rparr>],
      sessions = [\<lparr>s_id = 50, s_userId = 1, valid = True\<rparr>],
      next_id = 100\<rparr>"

definition empty_db :: db where
  "empty_db =
     \<lparr>tasks = [], completed_tasks = [], projects = [], project_members = [], users = [],
      organizations = [], organization_members = [], invites = [], sessions = [],
      next_id = 1\<rparr>"

definition example_env :: "int \<Rightarrow> nat option \<Rightarrow> env" where
  "example_env n f =
     \<lparr>now = n, now_completed = n, uuid = ''s-2'', throws_at = f, throws_msg = ''connection lost''\<rparr>"

text \<open>
  An update request of Bob for task 40 that gives only the assignee and the status (and a
  start date, which the handler does not read).
\<close>

definition example_update :: "nat jsfield \<Rightarrow> string jsfield \<Rightarrow> update_task_req" where
  "example_update a st =
     \<lparr>u_id = 40, u_user = 2, u_name = Undefined, u_description = Undefined,
      u_priority = Undefined, u_dueDate = Undefined, u_difficulty = Undefined,
      u_assigneeId = a, u_projectId = Undefined, u_exception = Undefined, u_status = st,
      u_started_date = Given 7200000\<rparr>"

text \<open>Bob's request for task 40 whose body is \<^verbatim>\<open>{status: "in-progress"}\<close>.\<close>

definition status_only_update :: update_task_req where
  "status_only_update =
     \<lparr>u_id = 40, u_user = 2, u_name = Undefined, u_description = Undefined,
      u_priority = Undefined, u_dueDate = Undefined, u_difficulty = Undefined,
      u_assigneeId = Undefined, u_projectId = Undefined, u_exception = Undefined,
      u_status = Given ''in-progress'', u_started_date = Undefined\<rparr>"

section \<open>Rows: lookup after a write\<close>

lemma findByPk_task_id: "findByPk_task ts k = Some t \<Longrightarrow> task_id t = k"
  unfolding findByPk_task_def by (induction ts) (auto split: if_splits)

lemma findByPk_task_mem: "findByPk_task ts k = Some t \<Longrightarrow> t \<in> set ts"
  unfolding findByPk_task_def by (induction ts) (auto split: if_splits)

lemma findByPk_task_None: "findByPk_task ts k = None \<longleftrightarrow> k \<notin> task_id ` set ts"
  unfolding findByPk_task_def by (induction ts) auto

lemma findByPk_save_task_same:
  "findByPk_task ts k = Some t \<Longrightarrow> task_id t' = k \<Longrightarrow> findByPk_task (save_task t' ts) k = Some t'"
  unfolding findByPk_task_def save_task_def by (induction ts) (auto split: if_splits)

lemma findByPk_save_task_other:
  "task_id t' \<noteq> k \<Longrightarrow> findByPk_task (save_task t' ts) k = findByPk_task ts k"
  unfolding findByPk_task_def save_task_def by (induction ts) auto

lemma findByPk_task_append:
  "task_id r \<noteq> k \<Longrightarrow> findByPk_task (ts @ [r]) k = findByPk_task ts k"
  unfolding findByPk_task_def by (induction ts) auto

lemma findByPk_task_destroy:
  "findByPk_task (destroy_task t ts) k = (if task_id t = k then None else findByPk_task ts k)"
  unfolding findByPk_task_def destroy_task_def by (induction ts) auto

lemma task_ids_save_task:
  "task_id ` set (save_task t' ts) = task_id ` set ts"
  unfolding save_task_def by (induction ts) auto

lemma map_task_id_save_task: "map task_id (save_task t' ts) = map task_id ts"
  unfolding save_task_def by (induction ts) auto

lemma set_save_task: "r \<in> set (save_task t' ts) \<Longrightarrow> r = t' \<and> task_id t' \<in> task_id ` set ts \<or> r \<in> set ts \<and> task_id r \<noteq> task_id t'"
  unfolding save_task_def by (induction ts) (auto split: if_splits)

lemma save_task_twice:
  "task_id t2 = task_id t1 \<Longrightarrow> save_task t2 (save_task t1 ts) = save_task t2 ts"
  unfolding save_task_def by (induction ts) auto

lemma task_id_update_fields [simp]: "task_id (update_fields req t) = task_id t"
  by (simp add: update_fields_def)

lemma findOne_invite_absent:
  "s \<notin> inv_secret ` set rows \<Longrightarrow> findOne_invite rows s u = None"
  unfolding findOne_invite_def by (induction rows) auto

lemma findOne_invite_found:
  "findOne_invite rows s u = Some i \<Longrightarrow> i \<in> set rows \<and> inv_secret i = s \<and> inv_userId i = u"
  unfolding findOne_invite_def by (induction rows) (auto split: if_splits)

lemma destroy_invite_consumes:
  assumes "distinct (map inv_secret rows)" and "findOne_invite rows s u = Some i"
  shows "s \<notin> inv_secret ` set (destroy_invite i rows)"
proof
  assume "s \<in> inv_secret ` set (destroy_invite i rows)"
  then obtain r where r: "r \<in> set rows" "inv_id r \<noteq> inv_id i" "inv_secret r = s"
    by (auto simp: destroy_invite_def)
  have i: "i \<in> set rows" "inv_secret i = s"
    using assms(2) by (simp_all add: findOne_invite_found)
  have "inj_on inv_secret (set rows)"
    using assms(1) by (simp add: distinct_map)
  then have "r = i" using r(1,3) i by (auto dest: inj_onD)
  then show False using r(2) by simp
qed

lemma distinct_map_count:
  "distinct (map f xs) \<Longrightarrow> length (filter (\<lambda>x. f x = k) xs) \<le> 1"
  by (induction xs) (auto simp: filter_empty_conv image_iff)

section \<open>What a handler can change\<close>

text \<open>
  The result of \<open>completeTask\<close> when no datastore call throws.
\<close>

lemma record_completion_ok:
  assumes "throws_at e = None"
  shows "record_completion e k req t h d =
    (Some (ok ''Task completed successfully'' (Some (CompletedTaskData
        \<lparr>c_id = next_id d, c_task_id = t_id req, c_user_id = t_user req,
         c_project_id = projectId t, c_started_date = started_date t,
         c_completed_date = now_completed e, hours = h\<rparr>))),
     d\<lparr>completed_tasks := completed_tasks d @
          [\<lparr>c_id = next_id d, c_task_id = t_id req, c_user_id = t_user req,
            c_project_id = projectId t, c_started_date = started_date t,
            c_completed_date = now_completed e, hours = h\<rparr>],
        next_id := Suc (next_id d),
        tasks := save_task (t\<lparr>status := ''completed''\<rparr>) (tasks d)\<rparr>)"
  using assms by (simp add: record_completion_def thrown_def Let_def)

lemma completeTask_not_in_progress:
  assumes "throws_at e = None" and "findByPk_task (tasks d) (t_id req) = Some t"
    and "status t \<noteq> ''in-progress''"
  shows "completeTask e req d =
     (Some (failure 403 ''Task is not in progress. First make it in progress.''), d)"
  using assms by (simp add: completeTask_def thrown_def)

lemma completeTask_success:
  assumes "throws_at e = None" and "findByPk_task (tasks d) (t_id req) = Some t"
    and "status t = ''in-progress''"
    and "\<not> unauthorized (t_user req) t
           (findOne_project_member (project_members d) (t_user req) (projectId t))"
  shows "completeTask e req d =
    (Some (ok ''Task completed successfully'' (Some (CompletedTaskData
        \<lparr>c_id = next_id d, c_task_id = t_id req, c_user_id = t_user req,
         c_project_id = projectId t, c_started_date = started_date t,
         c_completed_date = now_completed e, hours = diffInHours e t\<rparr>))),
     d\<lparr>completed_tasks := completed_tasks d @
          [\<lparr>c_id = next_id d, c_task_id = t_id req, c_user_id = t_user req,
            c_project_id = projectId t, c_started_date = started_date t,
            c_completed_date = now_completed e, hours = diffInHours e t\<rparr>],
        next_id := Suc (next_id d),
        tasks := save_task
          (t\<lparr>exception := (if diffInHours e t = 0 then True else exception t),
             status := ''completed''\<rparr>) (tasks d)\<rparr>)"
proof (cases "diffInHours e t = 0")
  case True
  then show ?thesis
    using assms
    by (simp add: completeTask_def thrown_def Let_def record_completion_ok save_task_twice)
next
  case False
  then show ?thesis
    using assms
    by (simp add: completeTask_def thrown_def Let_def record_completion_ok)
qed

text \<open>
  The datastore a task handler leaves behind is the one it found, or differs from it by
  the one write of the handler; \<open>completeTask\<close> makes up to three writes.
\<close>

lemma createTask_effect:
  "snd (createTask e r d) = d \<or>
   snd (createTask e r d) = d\<lparr>tasks := tasks d @ [new_task (next_id d) r], next_id := Suc (next_id d)\<rparr>"
  by (simp add: createTask_def Let_def split: option.splits)

lemma deleteTask_effect:
  "snd (deleteTask e r d) = d \<or>
   (\<exists>t. snd (deleteTask e r d) = d\<lparr>tasks := destroy_task t (tasks d)\<rparr>)"
  by (auto simp add: deleteTask_def Let_def split: option.splits)

lemma updateTask_effect:
  "snd (updateTask e r d) = d \<or>
   (\<exists>t t'. findByPk_task (tasks d) (u_id r) = Some t \<and> status t \<noteq> ''completed'' \<and>
      task_id t' = task_id t \<and> snd (updateTask e r d) = d\<lparr>tasks := save_task t' (tasks d)\<rparr>)"
proof (cases "findByPk_task (tasks d) (u_id r)")
  case None
  then show ?thesis by (simp add: updateTask_def plain_update_def)
next
  case (Some t)
  show ?thesis
  proof (cases "status t = ''completed''")
    case True
    then show ?thesis using Some by (simp add: updateTask_def plain_update_def Let_def)
  next
    case False
    let ?a = "(update_fields r t)\<lparr>status := ''todo'', started_date := None\<rparr>"
    let ?b = "(update_fields r t)\<lparr>status := ''in-progress'', started_date := Some (now e)\<rparr>"
    let ?c = "(update_fields r t)\<lparr>status := upd (u_status r) (status t)\<rparr>"
    have "snd (updateTask e r d) = d
        \<or> snd (updateTask e r d) = d\<lparr>tasks := save_task ?a (tasks d)\<rparr>
        \<or> snd (updateTask e r d) = d\<lparr>tasks := save_task ?b (tasks d)\<rparr>
        \<or> snd (updateTask e r d) = d\<lparr>tasks := save_task ?c (tasks d)\<rparr>"
      using Some by (simp add: updateTask_def plain_update_def Let_def updated_def)
    then show ?thesis
    proof (elim disjE)
      assume "snd (updateTask e r d) = d"
      then show ?thesis by simp
    next
      assume "snd (updateTask e r d) = d\<lparr>tasks := save_task ?a (tasks d)\<rparr>"
      then show ?thesis
        using Some False by (intro disjI2 exI [of _ t] exI [of _ ?a]) simp
    next
      assume "snd (updateTask e r d) = d\<lparr>tasks := save_task ?b (tasks d)\<rparr>"
      then show ?thesis
        using Some False by (intro disjI2 exI [of _ t] exI [of _ ?b]) simp
    next
      assume "snd (updateTask e r d) = d\<lparr>tasks := save_task ?c (tasks d)\<rparr>"
      then show ?thesis
        using Some False by (intro disjI2 exI [of _ t] exI [of _ ?c]) simp
    qed
  qed
qed

lemma record_completion_effect:
  "snd (record_completion e k r t h d) = d \<or>
   snd (record_completion e k r t h d) =
     d\<lparr>completed_tasks := completed_tasks d @
          [\<lparr>c_id = next_id d, c_task_id = t_id r, c_user_id = t_user r,
            c_project_id = projectId t, c_started_date = started_date t,
            c_completed_date = now_completed e, hours = h\<rparr>],
        next_id := Suc (next_id d)\<rparr> \<or>
   snd (record_completion e k r t h d) =
     d\<lparr>completed_tasks := completed_tasks d @
          [\<lparr>c_id = next_id d, c_task_id = t_id r, c_user_id = t_user r,
            c_project_id = projectId t, c_started_date = started_date t,
            c_completed_date = now_completed e, hours = h\<rparr>],
        next_id := Suc (next_id d),
        tasks := save_task (t\<lparr>status := ''completed''\<rparr>) (tasks d)\<rparr>"
  by (simp add: record_completion_def Let_def)

lemma completeTask_tasks_effect:
  "tasks (snd (completeTask e r d)) = tasks d \<or>
   (\<exists>t t'. findByPk_task (tasks d) (t_id r) = Some t \<and> status t \<noteq> ''completed'' \<and>
      task_id t' = task_id t \<and> tasks (snd (completeTask e r d)) = save_task t' (tasks d))"
proof (cases "findByPk_task (tasks d) (t_id r)")
  case None
  then show ?thesis by (simp add: completeTask_def)
next
  case (Some t)
  have rc: "tasks (snd (record_completion e k r t0 h d0)) = tasks d0 \<or>
      tasks (snd (record_completion e k r t0 h d0)) = save_task (t0\<lparr>status := ''completed''\<rparr>) (tasks d0)"
    for k t0 h d0
    using record_completion_effect [of e k r t0 h d0] by auto
  show ?thesis
  proof (cases "status t = ''in-progress''")
    case False
    then show ?thesis using Some by (simp add: completeTask_def)
  next
    case True
    then have nc: "status t \<noteq> ''completed''" by simp
    have "tasks (snd (completeTask e r d)) = tasks d
       \<or> tasks (snd (completeTask e r d)) = save_task (t\<lparr>exception := True\<rparr>) (tasks d)
       \<or> tasks (snd (completeTask e r d)) = save_task (t\<lparr>exception := True, status := ''completed''\<rparr>) (tasks d)
       \<or> tasks (snd (completeTask e r d)) = save_task (t\<lparr>status := ''completed''\<rparr>) (tasks d)"
      using Some True rc [of 3 "t\<lparr>exception := True\<rparr>" "diffInHours e t" "d\<lparr>tasks := save_task (t\<lparr>exception := True\<rparr>) (tasks d)\<rparr>"]
        rc [of 2 t "diffInHours e t" d]
      by (auto simp add: completeTask_def Let_def save_task_twice)
    then show ?thesis
    proof (elim disjE)
      assume "tasks (snd (completeTask e r d)) = tasks d"
      then show ?thesis by simp
    next
      assume "tasks (snd (completeTask e r d)) = save_task (t\<lparr>exception := True\<rparr>) (tasks d)"
      then show ?thesis
        using Some nc by (intro disjI2 exI [of _ t] exI [of _ "t\<lparr>exception := True\<rparr>"]) simp
    next
      assume "tasks (snd (completeTask e r d)) =
        save_task (t\<lparr>exception := True, status := ''completed''\<rparr>) (tasks d)"
      then show ?thesis
        using Some nc
        by (intro disjI2 exI [of _ t] exI [of _ "t\<lparr>exception := True, status := ''completed''\<rparr>"])
          simp
    next
      assume "tasks (snd (completeTask e r d)) = save_task (t\<lparr>status := ''completed''\<rparr>) (tasks d)"
      then show ?thesis
        using Some nc by (intro disjI2 exI [of _ t] exI [of _ "t\<lparr>status := ''completed''\<rparr>"]) simp
    qed
  qed
qed

lemma completeTask_next_id: "next_id d \<le> next_id (snd (completeTask e r d))"
proof -
  have rc: "next_id d0 \<le> next_id (snd (record_completion e k r t0 h d0))" for k t0 h d0
    using record_completion_effect [of e k r t0 h d0] by auto
  show ?thesis
    using rc [of d 2] rc [of "d\<lparr>tasks := ts\<rparr>" 3 for ts]
    by (auto simp add: completeTask_def Let_def split: option.splits)
qed

lemma completeTask_invites: "invites (snd (completeTask e r d)) = invites d"
proof -
  have rc: "invites (snd (record_completion e k r t0 h d0)) = invites d0" for k t0 h d0
    using record_completion_effect [of e k r t0 h d0] by auto
  show ?thesis
    by (auto simp add: completeTask_def Let_def rc split: option.splits)
qed

lemma completeTask_calm_effect:
  assumes "throws_at e = None"
  shows "snd (completeTask e r d) = d \<or>
    (\<exists>t t' c. findByPk_task (tasks d) (t_id r) = Some t \<and> status t \<noteq> ''completed'' \<and>
       task_id t' = task_id t \<and> status t' = ''completed'' \<and> c_task_id c = task_id t \<and>
       snd (completeTask e r d) =
         d\<lparr>completed_tasks := completed_tasks d @ [c], next_id := Suc (next_id d),
           tasks := save_task t' (tasks d)\<rparr>)"
proof (cases "findByPk_task (tasks d) (t_id r)")
  case None
  then show ?thesis by (simp add: completeTask_def)
next
  case (Some t)
  show ?thesis
  proof (cases "status t = ''in-progress'' \<and> \<not> unauthorized (t_user r) t
           (findOne_project_member (project_members d) (t_user r) (projectId t))")
    case False
    then show ?thesis using Some assms by (auto simp add: completeTask_def Let_def thrown_def)
  next
    case True
    let ?c = "\<lparr>c_id = next_id d, c_task_id = t_id r, c_user_id = t_user r,
         c_project_id = projectId t, c_started_date = started_date t,
         c_completed_date = now_completed e, hours = diffInHours e t\<rparr>"
    let ?t' = "t\<lparr>exception := (if diffInHours e t = 0 then True else exception t),
             status := ''completed''\<rparr>"
    have "snd (completeTask e r d) =
        d\<lparr>completed_tasks := completed_tasks d @ [?c], next_id := Suc (next_id d),
          tasks := save_task ?t' (tasks d)\<rparr>"
      using assms Some True by (simp add: completeTask_success)
    moreover have "status t \<noteq> ''completed''" using True by simp
    moreover have "c_task_id ?c = task_id t" using Some by (simp add: findByPk_task_id)
    ultimately show ?thesis
      using Some by (intro disjI2 exI [of _ t] exI [of _ ?t'] exI [of _ ?c]) simp
  qed
qed

lemma updateTask_completed:
  assumes "findByPk_task (tasks d) (u_id r) = Some t" and "status t = ''completed''"
  shows "snd (updateTask e r d) = d"
    and "throws_at e = None \<Longrightarrow>
      \<exists>m. updateTask e r d = (Some (failure 403 m), d)"
  using assms by (auto simp add: updateTask_def plain_update_def Let_def thrown_def)

text \<open>
  The handlers of the organization controller leave the tasks and the completion records
  alone, and the counter never decreases.
\<close>

lemma createOrganization_frame:
  "tasks (snd (createOrganization e r d)) = tasks d \<and>
   completed_tasks (snd (createOrganization e r d)) = completed_tasks d \<and>
   invites (snd (createOrganization e r d)) = invites d \<and>
   next_id d \<le> next_id (snd (createOrganization e r d))"
  by (simp add: createOrganization_def Let_def)

lemma deleteOrganization_frame:
  "tasks (snd (deleteOrganization e r d)) = tasks d \<and>
   completed_tasks (snd (deleteOrganization e r d)) = completed_tasks d \<and>
   invites (snd (deleteOrganization e r d)) = invites d \<and>
   next_id d \<le> next_id (snd (deleteOrganization e r d))"
  by (simp add: deleteOrganization_def Let_def split: option.splits)

lemma updateOrganization_frame:
  "tasks (snd (updateOrganization e r d)) = tasks d \<and>
   completed_tasks (snd (updateOrganization e r d)) = completed_tasks d \<and>
   invites (snd (updateOrganization e r d)) = invites d \<and>
   next_id d \<le> next_id (snd (updateOrganization e r d))"
  by (simp add: updateOrganization_def Let_def split: option.splits)

lemma inviteUserToOrganization_frame:
  "tasks (snd (inviteUserToOrganization e r d)) = tasks d \<and>
   completed_tasks (snd (inviteUserToOrganization e r d)) = completed_tasks d \<and>
   next_id d \<le> next_id (snd (inviteUserToOrganization e r d))"
  by (simp add: inviteUserToOrganization_def Let_def split: option.splits)

lemma acceptInvitation_frame:
  "tasks (snd (acceptInvitation e r d)) = tasks d \<and>
   completed_tasks (snd (acceptInvitation e r d)) = completed_tasks d \<and>
   next_id d \<le> next_id (snd (acceptInvitation e r d))"
  by (simp add: acceptInvitation_def Let_def split: option.splits)

lemma rejectInvitation_frame:
  "tasks (snd (rejectInvitation e r d)) = tasks d \<and>
   completed_tasks (snd (rejectInvitation e r d)) = completed_tasks d \<and>
   next_id d \<le> next_id (snd (rejectInvitation e r d))"
  by (simp add: rejectInvitation_def Let_def split: option.splits)

lemma removeOrganizationMember_frame:
  "tasks (snd (removeOrganizationMember e r d)) = tasks d \<and>
   completed_tasks (snd (removeOrganizationMember e r d)) = completed_tasks d \<and>
   invites (snd (removeOrganizationMember e r d)) = invites d \<and>
   next_id d \<le> next_id (snd (removeOrganizationMember e r d))"
  by (simp add: removeOrganizationMember_def Let_def split: option.splits)

lemma updateOrganizationMember_frame:
  "tasks (snd (updateOrganizationMember e r d)) = tasks d \<and>
   completed_tasks (snd (updateOrganizationMember e r d)) = completed_tasks d \<and>
   invites (snd (updateOrganizationMember e r d)) = invites d \<and>
   next_id d \<le> next_id (snd (updateOrganizationMember e r d))"
  by (simp add: updateOrganizationMember_def Let_def split: option.splits)

lemmas organization_frames =
  createOrganization_frame deleteOrganization_frame updateOrganization_frame
  inviteUserToOrganization_frame acceptInvitation_frame rejectInvitation_frame
  removeOrganizationMember_frame updateOrganizationMember_frame

lemma step_next_id: "next_id d \<le> next_id (snd (step x d))"
proof (cases x)
  case (CreateTask e r)
  then show ?thesis using createTask_effect [of e r d] by auto
next
  case (DeleteTask e r)
  then show ?thesis using deleteTask_effect [of e r d] by auto
next
  case (UpdateTask e r)
  then show ?thesis using updateTask_effect [of e r d] by auto
next
  case (CompleteTask e r)
  then show ?thesis by (simp add: completeTask_next_id)
qed (simp_all add: organization_frames)

lemma step_tasks:
  "tasks (snd (step x d)) = tasks d
   \<or> (\<exists>r. task_id r = next_id d \<and> tasks (snd (step x d)) = tasks d @ [r]
          \<and> next_id (snd (step x d)) = Suc (next_id d))
   \<or> (\<exists>t. tasks (snd (step x d)) = destroy_task t (tasks d))
   \<or> (\<exists>t t'. findByPk_task (tasks d) (task_id t) = Some t \<and> status t \<noteq> ''completed'' \<and>
        task_id t' = task_id t \<and> tasks (snd (step x d)) = save_task t' (tasks d))"
proof (cases x)
  case (CreateTask e r)
  have "task_id (new_task (next_id d) r) = next_id d" by (simp add: new_task_def)
  then show ?thesis using CreateTask createTask_effect [of e r d] by auto
next
  case (DeleteTask e r)
  then show ?thesis using deleteTask_effect [of e r d] by auto
next
  case (UpdateTask e r)
  from updateTask_effect [of e r d] show ?thesis
  proof
    assume "snd (updateTask e r d) = d"
    then show ?thesis using UpdateTask by simp
  next
    assume "\<exists>t t'. findByPk_task (tasks d) (u_id r) = Some t \<and> status t \<noteq> ''completed'' \<and>
      task_id t' = task_id t \<and> snd (updateTask e r d) = d\<lparr>tasks := save_task t' (tasks d)\<rparr>"
    then obtain t t' where "findByPk_task (tasks d) (u_id r) = Some t" "status t \<noteq> ''completed''"
      "task_id t' = task_id t" "snd (updateTask e r d) = d\<lparr>tasks := save_task t' (tasks d)\<rparr>"
      by blast
    then show ?thesis
      using UpdateTask findByPk_task_id [of "tasks d" "u_id r" t]
      by (intro disjI2 exI [of _ t] exI [of _ t']) simp
  qed
next
  case (CompleteTask e r)
  from completeTask_tasks_effect [of e r d] show ?thesis
  proof
    assume "tasks (snd (completeTask e r d)) = tasks d"
    then show ?thesis using CompleteTask by simp
  next
    assume "\<exists>t t'. findByPk_task (tasks d) (t_id r) = Some t \<and> status t \<noteq> ''completed'' \<and>
      task_id t' = task_id t \<and> tasks (snd (completeTask e r d)) = save_task t' (tasks d)"
    then obtain t t' where "findByPk_task (tasks d) (t_id r) = Some t" "status t \<noteq> ''completed''"
      "task_id t' = task_id t" "tasks (snd (completeTask e r d)) = save_task t' (tasks d)"
      by blast
    then show ?thesis
      using CompleteTask findByPk_task_id [of "tasks d" "t_id r" t]
      by (intro disjI2 exI [of _ t] exI [of _ t']) simp
  qed
qed (simp_all add: organization_frames)

lemma step_invites:
  "invites (snd (step x d)) = invites d
   \<or> (\<exists>i. invites (snd (step x d)) = destroy_invite i (invites d))
   \<or> (\<exists>i. issued_secret x = Some (inv_secret i) \<and> invites (snd (step x d)) = invites d @ [i])"
proof (cases x)
  case (CreateTask e r)
  then show ?thesis using createTask_effect [of e r d] by auto
next
  case (DeleteTask e r)
  then show ?thesis using deleteTask_effect [of e r d] by auto
next
  case (UpdateTask e r)
  then show ?thesis using updateTask_effect [of e r d] by auto
next
  case (CompleteTask e r)
  then show ?thesis by (simp add: completeTask_invites)
next
  case (InviteUserToOrganization e r)
  then show ?thesis
    by (auto simp add: inviteUserToOrganization_def Let_def split: option.splits)
next
  case (AcceptInvitation e r)
  then show ?thesis
    by (auto simp add: acceptInvitation_def Let_def split: option.splits)
next
  case (RejectInvitation e r)
  then show ?thesis
    by (auto simp add: rejectInvitation_def Let_def split: option.splits)
qed (simp_all add: organization_frames)

lemma invitation_absent:
  assumes "s \<notin> inv_secret ` set (invites d)" and "throws_at e = None"
  shows "acceptInvitation e \<lparr>a_secret = s, a_user = u\<rparr> d =
           (Some (failure 404 ''Invite not found''), d)"
    and "rejectInvitation e \<lparr>a_secret = s, a_user = u\<rparr> d =
           (Some (failure 404 ''Invite not found''), d)"
  using assms
  by (simp_all add: acceptInvitation_def rejectInvitation_def thrown_def findOne_invite_absent)

lemma secret_stays_absent:
  "s \<notin> inv_secret ` set (invites d) \<Longrightarrow> \<forall>x\<in>set xs. issued_secret x \<noteq> Some s \<Longrightarrow>
   s \<notin> inv_secret ` set (invites (run xs d))"
proof (induction xs arbitrary: d)
  case Nil
  then show ?case by simp
next
  case (Cons x xs)
  have "s \<notin> inv_secret ` set (invites (snd (step x d)))"
    using step_invites [of x d] Cons.prems by (auto simp: destroy_invite_def)
  then show ?case using Cons by simp
qed

subsection \<open>A completed task under any request\<close>

lemma fresh_keys_step: "fresh_keys d \<Longrightarrow> fresh_keys (snd (step x d))"
proof -
  assume f: "fresh_keys d"
  have ids: "\<forall>k\<in>task_id ` set (tasks d). k < next_id d"
    using f by (simp add: fresh_keys_def)
  have le: "next_id d \<le> next_id (snd (step x d))" by (rule step_next_id)
  have "\<forall>k\<in>task_id ` set (tasks (snd (step x d))). k < next_id (snd (step x d))"
    using step_tasks [of x d]
  proof (elim disjE exE conjE)
    assume "tasks (snd (step x d)) = tasks d"
    then show ?thesis using ids le by auto
  next
    fix r assume "task_id r = next_id d" "tasks (snd (step x d)) = tasks d @ [r]"
      "next_id (snd (step x d)) = Suc (next_id d)"
    then show ?thesis using ids by auto
  next
    fix t assume "tasks (snd (step x d)) = destroy_task t (tasks d)"
    then show ?thesis using ids le by (auto simp: destroy_task_def)
  next
    fix t t' assume "tasks (snd (step x d)) = save_task t' (tasks d)"
    then show ?thesis using ids le by (simp add: task_ids_save_task) force
  qed
  then show ?thesis by (simp add: fresh_keys_def)
qed

lemma terminal_step:
  assumes c: "status t = ''completed''"
    and f: "fresh_keys d" and k: "k < next_id d"
    and s: "findByPk_task (tasks d) k = None \<or> findByPk_task (tasks d) k = Some t"
  shows "findByPk_task (tasks (snd (step x d))) k = None \<or>
         findByPk_task (tasks (snd (step x d))) k = Some t"
  using step_tasks [of x d]
proof (elim disjE exE conjE)
  assume "tasks (snd (step x d)) = tasks d"
  then show ?thesis using s by simp
next
  fix r assume "task_id r = next_id d" "tasks (snd (step x d)) = tasks d @ [r]"
  then show ?thesis using s k by (simp add: findByPk_task_append)
next
  fix u assume "tasks (snd (step x d)) = destroy_task u (tasks d)"
  then show ?thesis using s by (simp add: findByPk_task_destroy)
next
  fix u u' assume u: "findByPk_task (tasks d) (task_id u) = Some u" "status u \<noteq> ''completed''"
    "task_id u' = task_id u" "tasks (snd (step x d)) = save_task u' (tasks d)"
  show ?thesis
  proof (cases "task_id u = k")
    case True
    then have "findByPk_task (tasks d) k = None" using u(1,2) s c by auto
    then show ?thesis
      using u(4) by (simp add: findByPk_task_None task_ids_save_task)
  next
    case False
    then show ?thesis using u(3,4) s by (simp add: findByPk_save_task_other)
  qed
qed

lemma terminal_run:
  assumes c: "status t = ''completed''"
  shows "fresh_keys d \<Longrightarrow> k < next_id d \<Longrightarrow>
     findByPk_task (tasks d) k = None \<or> findByPk_task (tasks d) k = Some t \<Longrightarrow>
     findByPk_task (tasks (run xs d)) k = None \<or> findByPk_task (tasks (run xs d)) k = Some t"
proof (induction xs arbitrary: d)
  case Nil
  then show ?case by simp
next
  case (Cons x xs)
  have "fresh_keys (snd (step x d))" using Cons.prems(1) by (rule fresh_keys_step)
  moreover have "k < next_id (snd (step x d))"
    using Cons.prems(2) step_next_id [of d x] by simp
  moreover have "findByPk_task (tasks (snd (step x d))) k = None \<or>
      findByPk_task (tasks (snd (step x d))) k = Some t"
    using c Cons.prems by (rule terminal_step)
  ultimately show ?case using Cons.IH by simp
qed

subsection \<open>Completion records under requests without datastore errors\<close>

lemma one_completion_frame:
  assumes "one_completion d" and "tasks d' = tasks d"
    and "completed_tasks d' = completed_tasks d" and "next_id d \<le> next_id d'"
  shows "one_completion d'"
  using assms unfolding one_completion_def by (auto intro: less_le_trans)

lemma one_completion_create:
  assumes "one_completion d" and "task_id n = next_id d"
  shows "one_completion (d\<lparr>tasks := tasks d @ [n], next_id := Suc (next_id d)\<rparr>)"
  using assms unfolding one_completion_def by (auto intro: less_SucI)

lemma one_completion_destroy:
  assumes "one_completion d"
  shows "one_completion (d\<lparr>tasks := destroy_task t (tasks d)\<rparr>)"
  using assms unfolding one_completion_def destroy_task_def
  by (auto simp: distinct_map_filter)

lemma unrecorded:
  assumes "one_completion d" and "findByPk_task (tasks d) k = Some t"
    and "status t \<noteq> ''completed''"
  shows "task_id t \<notin> c_task_id ` set (completed_tasks d)"
  using assms findByPk_task_mem [of "tasks d" k t] unfolding one_completion_def by auto

lemma one_completion_save:
  assumes "one_completion d" and "findByPk_task (tasks d) k = Some t"
    and "status t \<noteq> ''completed''" and "task_id t' = task_id t"
  shows "one_completion (d\<lparr>tasks := save_task t' (tasks d)\<rparr>)"
proof -
  have u: "task_id t' \<notin> c_task_id ` set (completed_tasks d)"
    using unrecorded [OF assms(1-3)] assms(4) by simp
  have "\<forall>c\<in>set (completed_tasks d). \<forall>r\<in>set (save_task t' (tasks d)).
         task_id r = c_task_id c \<longrightarrow> status r = ''completed''"
  proof (intro ballI impI)
    fix c r assume c: "c \<in> set (completed_tasks d)" and r: "r \<in> set (save_task t' (tasks d))"
      and eq: "task_id r = c_task_id c"
    from set_save_task [OF r] show "status r = ''completed''"
    proof
      assume "r = t' \<and> task_id t' \<in> task_id ` set (tasks d)"
      then show ?thesis using u c eq by auto
    next
      assume "r \<in> set (tasks d) \<and> task_id r \<noteq> task_id t'"
      then show ?thesis using assms(1) c eq unfolding one_completion_def by auto
    qed
  qed
  moreover have "\<forall>r\<in>set (save_task t' (tasks d)). task_id r < next_id d"
  proof
    fix r assume "r \<in> set (save_task t' (tasks d))"
    then have "task_id r \<in> task_id ` set (tasks d)"
      by (auto dest: set_save_task)
    then show "task_id r < next_id d" using assms(1) unfolding one_completion_def by auto
  qed
  ultimately show ?thesis
    using assms(1) unfolding one_completion_def by (simp add: map_task_id_save_task)
qed

lemma one_completion_complete:
  assumes "one_completion d" and "findByPk_task (tasks d) k = Some t"
    and "status t \<noteq> ''completed''" and "task_id t' = task_id t"
    and "status t' = ''completed''" and "c_task_id c = task_id t"
  shows "one_completion (d\<lparr>completed_tasks := completed_tasks d @ [c],
            next_id := Suc (next_id d), tasks := save_task t' (tasks d)\<rparr>)"
proof -
  have s: "one_completion (d\<lparr>tasks := save_task t' (tasks d)\<rparr>)"
    using assms(1-4) by (rule one_completion_save)
  have u: "task_id t \<notin> c_task_id ` set (completed_tasks d)"
    using assms(1-3) by (rule unrecorded)
  have lt: "task_id t < next_id d"
    using assms(1) findByPk_task_mem [OF assms(2)] unfolding one_completion_def by auto
  have new: "\<forall>r\<in>set (save_task t' (tasks d)). task_id r = c_task_id c \<longrightarrow> status r = ''completed''"
  proof (intro ballI impI)
    fix r assume r: "r \<in> set (save_task t' (tasks d))" and eq: "task_id r = c_task_id c"
    from set_save_task [OF r] show "status r = ''completed''"
      using eq assms(4-6) by auto
  qed
  show ?thesis
    using s u lt new assms(6) unfolding one_completion_def
    by (auto intro: less_SucI)
qed

lemma one_completion_step:
  assumes "one_completion d" and "throws_at (env_of x) = None"
  shows "one_completion (snd (step x d))"
proof (cases x)
  case (CreateTask e r)
  have "task_id (new_task (next_id d) r) = next_id d" by (simp add: new_task_def)
  then show ?thesis
    using CreateTask createTask_effect [of e r d] assms(1)
    by (auto intro: one_completion_create)
next
  case (DeleteTask e r)
  then show ?thesis
    using deleteTask_effect [of e r d] assms(1) by (auto intro: one_completion_destroy)
next
  case (UpdateTask e r)
  then show ?thesis
    using updateTask_effect [of e r d] assms(1) by (auto intro: one_completion_save)
next
  case (CompleteTask e r)
  then show ?thesis
    using completeTask_calm_effect [of e r d] assms by (auto intro: one_completion_complete)
qed (use assms(1) in \<open>auto intro!: one_completion_frame [of d] simp: organization_frames\<close>)

lemma one_completion_run:
  "one_completion d \<Longrightarrow> \<forall>x\<in>set xs. throws_at (env_of x) = None \<Longrightarrow> one_completion (run xs d)"
proof (induction xs arbitrary: d)
  case Nil
  then show ?case by simp
next
  case (Cons x xs)
  then have "one_completion (snd (step x d))" by (simp add: one_completion_step)
  then show ?case using Cons by simp
qed

subsection \<open>Responses with a 4xx status\<close>

lemma record_completion_code:
  "record_completion e k r t h d = (Some resp, d') \<Longrightarrow> code resp = 200 \<or> code resp = 500"
  by (auto simp add: record_completion_def Let_def ok_def internal_def failure_def
      split: if_splits)

lemma createTask_client_error:
  "createTask e r d = (Some resp, d') \<Longrightarrow> 400 \<le> code resp \<Longrightarrow> code resp < 500 \<Longrightarrow> d' = d"
  by (auto simp add: createTask_def Let_def ok_def internal_def failure_def
      split: if_splits option.splits)

lemma deleteTask_client_error:
  "deleteTask e r d = (Some resp, d') \<Longrightarrow> 400 \<le> code resp \<Longrightarrow> code resp < 500 \<Longrightarrow> d' = d"
  by (auto simp add: deleteTask_def Let_def ok_def internal_def failure_def
      split: if_splits option.splits)

lemma updateTask_client_error:
  "updateTask e r d = (Some resp, d') \<Longrightarrow> 400 \<le> code resp \<Longrightarrow> code resp < 500 \<Longrightarrow> d' = d"
  by (auto simp add: updateTask_def plain_update_def updated_def Let_def ok_def internal_def failure_def
      split: if_splits option.splits)

lemma completeTask_client_error:
  "completeTask e r d = (Some resp, d') \<Longrightarrow> 400 \<le> code resp \<Longrightarrow> code resp < 500 \<Longrightarrow> d' = d"
  by (auto simp add: completeTask_def Let_def internal_def failure_def
      split: if_splits option.splits dest: record_completion_code)

lemma createOrganization_client_error:
  "createOrganization e r d = (Some resp, d') \<Longrightarrow> 400 \<le> code resp \<Longrightarrow> code resp < 500 \<Longrightarrow> d' = d"
  by (auto simp add: createOrganization_def Let_def ok_def internal_def failure_def
      split: if_splits option.splits)

lemma deleteOrganization_client_error:
  "deleteOrganization e r d = (Some resp, d') \<Longrightarrow> 400 \<le> code resp \<Longrightarrow> code resp < 500 \<Longrightarrow> d' = d"
  by (auto simp add: deleteOrganization_def Let_def ok_def internal_def failure_def
      split: if_splits option.splits)

lemma updateOrganization_client_error:
  "updateOrganization e r d = (Some resp, d') \<Longrightarrow> 400 \<le> code resp \<Longrightarrow> code resp < 500 \<Longrightarrow> d' = d"
  by (auto simp add: updateOrganization_def Let_def ok_def internal_def failure_def
      split: if_splits option.splits)

lemma inviteUserToOrganization_client_error:
  "inviteUserToOrganization e r d = (Some resp, d') \<Longrightarrow> 400 \<le> code resp \<Longrightarrow> code resp < 500
     \<Longrightarrow> d' = d"
  by (auto simp add: inviteUserToOrganization_def Let_def ok_def internal_def failure_def
      split: if_splits option.splits)

lemma acceptInvitation_client_error:
  "acceptInvitation e r d = (Some resp, d') \<Longrightarrow> 400 \<le> code resp \<Longrightarrow> code resp < 500 \<Longrightarrow> d' = d"
  by (auto simp add: acceptInvitation_def Let_def ok_def internal_def failure_def
      split: if_splits option.splits)

lemma rejectInvitation_client_error:
  "rejectInvitation e r d = (Some resp, d') \<Longrightarrow> 400 \<le> code resp \<Longrightarrow> code resp < 500 \<Longrightarrow> d' = d"
  by (auto simp add: rejectInvitation_def Let_def ok_def internal_def failure_def
      split: if_splits option.splits)

lemma removeOrganizationMember_client_error:
  "removeOrganizationMember e r d = (Some resp, d') \<Longrightarrow> 400 \<le> code resp \<Longrightarrow> code resp < 500
     \<Longrightarrow> d' = d"
  by (auto simp add: removeOrganizationMember_def Let_def ok_def internal_def failure_def
      split: if_splits option.splits)

lemma updateOrganizationMember_client_error:
  "updateOrganizationMember e r d = (Some resp, d') \<Longrightarrow> 400 \<le> code resp \<Longrightarrow> code resp < 500
     \<Longrightarrow> d' = d"
  by (auto simp add: updateOrganizationMember_def Let_def ok_def internal_def failure_def
      split: if_splits option.splits)

subsection \<open>Evaluating the example datastore\<close>

lemmas example_defs =
  example_task_def example_db_def example_env_def example_update_def
  findByPk_task_def findOne_project_member_def unauthorized_def

lemmas organization_defs =
  example_db_def example_env_def findOne_invite_def findOne_organization_member_def
  findByPk_organization_def findAll_owners_def not_owner_def thrown_def

lemma one_completion_example:
  "one_completion (example_db [example_task st sd])"
  by (simp add: one_completion_def example_db_def example_task_def)

section \<open>The claims\<close>

subsection \<open>C1: a completed task is never moved to another status\<close>

text \<open>
  Claim C1 as stated has every status transition follow the order todo, in-progress,
  completed. The handlers do not keep that order before completion: Bob's task 40 is in
  progress, and an update that names another assignee puts it back to todo.
\<close>

theorem reassignment_leaves_in_progress:
  "map status (tasks (example_db [example_task ''in-progress'' (Some 0)])) = [''in-progress'']
   \<and> map status (tasks (snd (updateTask (example_env 5400000 None)
                               (example_update (Given 3) Undefined)
                               (example_db [example_task ''in-progress'' (Some 0)]))))
       = [''todo'']"
  by (simp add: example_defs updateTask_def plain_update_def updated_def update_fields_def save_task_def
      thrown_def Let_def)

text \<open>
  Claim C1, amended: no operation moves a completed task to another status. Whatever
  requests are served, with or without datastore errors, a task that is completed is
  afterwards either deleted or the same row as before. \<open>updateTask\<close> on a completed
  task writes nothing and, when no datastore call throws, answers 403;
  \<open>completeTask\<close> on a completed task writes nothing and fails its in-progress
  precondition with 403.
\<close>

theorem completed_is_terminal:
  assumes "fresh_keys d" and "findByPk_task (tasks d) k = Some t"
    and "status t = ''completed''"
  shows "(findByPk_task (tasks (run xs d)) k = None \<or>
          findByPk_task (tasks (run xs d)) k = Some t)
       \<and> (\<forall>e r. u_id r = k \<longrightarrow> snd (updateTask e r d) = d)
       \<and> (\<forall>e r. u_id r = k \<and> throws_at e = None \<longrightarrow>
             (\<exists>m. updateTask e r d = (Some (failure 403 m), d)))
       \<and> (\<forall>e r. t_id r = k \<longrightarrow> snd (completeTask e r d) = d)
       \<and> (\<forall>e r. t_id r = k \<and> throws_at e = None \<longrightarrow>
             completeTask e r d =
               (Some (failure 403 ''Task is not in progress. First make it in progress.''), d))"
proof (intro conjI allI impI)
  have "k < next_id d"
    using assms(1,2) findByPk_task_mem [of "tasks d" k t] findByPk_task_id [of "tasks d" k t]
    by (auto simp: fresh_keys_def)
  then show "findByPk_task (tasks (run xs d)) k = None \<or>
          findByPk_task (tasks (run xs d)) k = Some t"
    using assms by (intro terminal_run) simp_all
next
  fix e :: env and r :: update_task_req assume "u_id r = k"
  then show "snd (updateTask e r d) = d"
    using assms by (simp add: updateTask_completed(1))
next
  fix e :: env and r :: update_task_req assume "u_id r = k \<and> throws_at e = None"
  then show "\<exists>m. updateTask e r d = (Some (failure 403 m), d)"
    using assms by (simp add: updateTask_completed(2))
next
  fix e :: env and r :: task_req assume "t_id r = k"
  then show "snd (completeTask e r d) = d"
    using assms by (simp add: completeTask_def)
next
  fix e :: env and r :: task_req assume "t_id r = k \<and> throws_at e = None"
  then show "completeTask e r d =
               (Some (failure 403 ''Task is not in progress. First make it in progress.''), d)"
    using assms by (simp add: completeTask_not_in_progress)
qed

text \<open>
  On the example: task 40 completed, then an update that reassigns it and a second
  completion are refused and leave the row as it was.
\<close>

theorem completed_is_terminal_witness:
  "fresh_keys (example_db [example_task ''completed'' (Some 0)])
   \<and> findByPk_task
        (tasks (run [UpdateTask (example_env 5400000 None) (example_update (Given 3) (Given ''todo'')),
                     CompleteTask (example_env 5400000 None) \<lparr>t_id = 40, t_user = 2\<rparr>]
                  (example_db [example_task ''completed'' (Some 0)]))) 40
       = Some (example_task ''completed'' (Some 0))
   \<and> (\<exists>m. updateTask (example_env 5400000 None) (example_update (Given 3) (Given ''todo''))
             (example_db [example_task ''completed'' (Some 0)]) =
           (Some (failure 403 m), example_db [example_task ''completed'' (Some 0)]))
   \<and> completeTask (example_env 5400000 None) \<lparr>t_id = 40, t_user = 2\<rparr>
        (example_db [example_task ''completed'' (Some 0)]) =
       (Some (failure 403 ''Task is not in progress. First make it in progress.''),
        example_db [example_task ''completed'' (Some 0)])"
proof -
  let ?e = "example_env 5400000 None"
  let ?u = "example_update (Given 3) (Given ''todo'')"
  let ?c = "\<lparr>t_id = 40, t_user = 2\<rparr>"
  let ?t = "example_task ''completed'' (Some 0)"
  let ?d = "example_db [?t]"
  have h1: "fresh_keys ?d" by (simp add: fresh_keys_def example_defs)
  have h2: "findByPk_task (tasks ?d) 40 = Some ?t" by (simp add: example_defs)
  have h3: "status ?t = ''completed''" by (simp add: example_defs)
  have e: "throws_at ?e = None" by (simp add: example_defs)
  have u: "u_id ?u = 40" by (simp add: example_defs)
  note inst = completed_is_terminal [OF h1 h2 h3, of "[UpdateTask ?e ?u, CompleteTask ?e ?c]"]
  have r: "snd (updateTask ?e ?u ?d) = ?d" "snd (completeTask ?e ?c ?d) = ?d"
    using inst u by simp_all
  have "findByPk_task (tasks (run [UpdateTask ?e ?u, CompleteTask ?e ?c] ?d)) 40 = Some ?t"
    using r h2 by simp
  moreover have "\<exists>m. updateTask ?e ?u ?d = (Some (failure 403 m), ?d)"
    using inst u e by blast
  moreover have "completeTask ?e ?c ?d =
      (Some (failure 403 ''Task is not in progress. First make it in progress.''), ?d)"
    using inst e by simp
  ultimately show ?thesis using h1 by blast
qed

text \<open>
  Nor is in-progress a station on the way: an update that asks for status completed moves
  a task from todo to completed, and writes no completion record.
\<close>

lemma update_completes_directly:
  "map status (tasks (example_db [example_task ''todo'' None])) = [''todo'']
   \<and> map status (tasks (snd (updateTask (example_env 5400000 None)
                               (example_update (Given 2) (Given ''completed''))
                               (example_db [example_task ''todo'' None]))))
       = [''completed'']
   \<and> completed_tasks (snd (updateTask (example_env 5400000 None)
                               (example_update (Given 2) (Given ''completed''))
                               (example_db [example_task ''todo'' None]))) = []"
  by (simp add: example_defs updateTask_def plain_update_def updated_def update_fields_def save_task_def
      thrown_def Let_def)

subsection \<open>C2: completeTask records the completion once\<close>

text \<open>
  Claim C2: for a task that exists, when no datastore call throws, \<open>completeTask\<close>
  answers 403 unless the status is in-progress. For an in-progress task and an authorized
  actor it succeeds and appends exactly one completion record. When the task was started
  at \<open>ms\<close> and the clock is within \<open>2^53\<close> milliseconds of it (the range
  in which the arithmetic of the code is exact), the \<open>hours\<close> of the record are
  \<open>\<bar>now - ms\<bar>\<close> divided by the milliseconds of an hour and floored; for a task
  without start date the subtraction reads the date as 0. The exception flag is set exactly
  when that number is zero (the flag is left as it was otherwise), and the task is left
  completed; \<open>completeTask\<close> on the resulting datastore answers 403 and changes
  nothing. From a datastore that satisfies \<open>one_completion\<close>, every sequence of
  requests without datastore errors leaves at most one completion record for each task.
\<close>

theorem completeTask_records_once:
  assumes "throws_at e = None" and "findByPk_task (tasks d) (t_id req) = Some t"
  shows "(status t \<noteq> ''in-progress'' \<longrightarrow>
            completeTask e req d =
              (Some (failure 403 ''Task is not in progress. First make it in progress.''), d))
       \<and> (status t = ''in-progress'' \<and>
          \<not> unauthorized (t_user req) t
              (findOne_project_member (project_members d) (t_user req) (projectId t)) \<longrightarrow>
            (\<exists>c t' d'. completeTask e req d =
                 (Some (ok ''Task completed successfully'' (Some (CompletedTaskData c))), d')
               \<and> completed_tasks d' = completed_tasks d @ [c]
               \<and> c_task_id c = t_id req
               \<and> (\<forall>ms. started_date t = Some ms \<and> \<bar>now e - ms\<bar> < 2 ^ 53 \<longrightarrow>
                     hours c = \<bar>now e - ms\<bar> div 3600000)
               \<and> (started_date t = None \<and> \<bar>now e\<bar> < 2 ^ 53 \<longrightarrow>
                     hours c = \<bar>now e\<bar> div 3600000)
               \<and> findByPk_task (tasks d') (t_id req) = Some t'
               \<and> t' = t\<lparr>exception := (if hours c = 0 then True else exception t),
                         status := ''completed''\<rparr>
               \<and> (\<forall>e' req'. throws_at e' = None \<and> t_id req' = t_id req \<longrightarrow>
                     completeTask e' req' d' =
                       (Some (failure 403 ''Task is not in progress. First make it in progress.''),
                        d'))))
       \<and> (one_completion d \<longrightarrow>
            (\<forall>xs k. (\<forall>x\<in>set xs. throws_at (env_of x) = None) \<longrightarrow>
               length (filter (\<lambda>c. c_task_id c = k) (completed_tasks (run xs d))) \<le> 1))"
proof (intro conjI impI allI)
  assume "status t \<noteq> ''in-progress''"
  then show "completeTask e req d =
      (Some (failure 403 ''Task is not in progress. First make it in progress.''), d)"
    using assms by (rule completeTask_not_in_progress [rotated 2])
next
  let ?c = "\<lparr>c_id = next_id d, c_task_id = t_id req, c_user_id = t_user req,
         c_project_id = projectId t, c_started_date = started_date t,
         c_completed_date = now_completed e, hours = diffInHours e t\<rparr>"
  let ?t' = "t\<lparr>exception := (if diffInHours e t = 0 then True else exception t),
             status := ''completed''\<rparr>"
  let ?d' = "d\<lparr>completed_tasks := completed_tasks d @ [?c],
        next_id := Suc (next_id d), tasks := save_task ?t' (tasks d)\<rparr>"
  assume a: "status t = ''in-progress'' \<and>
    \<not> unauthorized (t_user req) t
        (findOne_project_member (project_members d) (t_user req) (projectId t))"
  have run: "completeTask e req d =
      (Some (ok ''Task completed successfully'' (Some (CompletedTaskData ?c))), ?d')"
    using assms a by (simp add: completeTask_success)
  have id: "task_id ?t' = t_id req"
    using assms(2) by (simp add: findByPk_task_id)
  have found: "findByPk_task (tasks ?d') (t_id req) = Some ?t'"
    using assms(2) id by (simp add: findByPk_save_task_same)
  have again: "completeTask e' req' ?d' =
      (Some (failure 403 ''Task is not in progress. First make it in progress.''), ?d')"
    if "throws_at e' = None \<and> t_id req' = t_id req" for e' req'
  proof (rule completeTask_not_in_progress)
    show "throws_at e' = None" using that by simp
    show "findByPk_task (tasks ?d') (t_id req') = Some ?t'" using found that by simp
    show "status ?t' \<noteq> ''in-progress''" by simp
  qed
  show "\<exists>c t' d'. completeTask e req d =
                 (Some (ok ''Task completed successfully'' (Some (CompletedTaskData c))), d')
               \<and> completed_tasks d' = completed_tasks d @ [c]
               \<and> c_task_id c = t_id req
               \<and> (\<forall>ms. started_date t = Some ms \<and> \<bar>now e - ms\<bar> < 2 ^ 53 \<longrightarrow>
                     hours c = \<bar>now e - ms\<bar> div 3600000)
               \<and> (started_date t = None \<and> \<bar>now e\<bar> < 2 ^ 53 \<longrightarrow>
                     hours c = \<bar>now e\<bar> div 3600000)
               \<and> findByPk_task (tasks d') (t_id req) = Some t'
               \<and> t' = t\<lparr>exception := (if hours c = 0 then True else exception t),
                         status := ''completed''\<rparr>
               \<and> (\<forall>e' req'. throws_at e' = None \<and> t_id req' = t_id req \<longrightarrow>
                     completeTask e' req' d' =
                       (Some (failure 403 ''Task is not in progress. First make it in progress.''),
                        d'))"
  proof (intro exI [of _ ?c] exI [of _ ?t'] exI [of _ ?d'] conjI allI impI)
    show "completeTask e req d =
      (Some (ok ''Task completed successfully'' (Some (CompletedTaskData ?c))), ?d')"
      by (rule run)
    show "completed_tasks ?d' = completed_tasks d @ [?c]" by simp
    show "c_task_id ?c = t_id req" by simp
    show "hours ?c = \<bar>now e - ms\<bar> div 3600000"
      if "started_date t = Some ms \<and> \<bar>now e - ms\<bar> < 2 ^ 53" for ms
      using that by (simp add: diffInHours_def)
    show "hours ?c = \<bar>now e\<bar> div 3600000"
      if "started_date t = None \<and> \<bar>now e\<bar> < 2 ^ 53"
      using that by (simp add: diffInHours_def)
    show "findByPk_task (tasks ?d') (t_id req) = Some ?t'" by (rule found)
    show "?t' = t\<lparr>exception := (if hours ?c = 0 then True else exception t),
                         status := ''completed''\<rparr>" by simp
    show "completeTask e' req' ?d' =
      (Some (failure 403 ''Task is not in progress. First make it in progress.''), ?d')"
      if "throws_at e' = None \<and> t_id req' = t_id req" for e' req'
      using that by (rule again)
  qed
next
  fix xs k
  assume "one_completion d" and "\<forall>x\<in>set xs. throws_at (env_of x) = None"
  then have "one_completion (run xs d)" by (rule one_completion_run)
  then have "distinct (map c_task_id (completed_tasks (run xs d)))"
    by (simp add: one_completion_def)
  then show "length (filter (\<lambda>c. c_task_id c = k) (completed_tasks (run xs d))) \<le> 1"
    by (rule distinct_map_count)
qed

text \<open>
  The scenario of the specification: the task was started at 36000000 (ten hours after the
  epoch) and is completed 90 minutes later, at 41400000. The record has one hour, the
  exception flag stays unset, the status is completed, and a second completion is refused
  and adds no record.
\<close>

theorem completeTask_records_once_witness:
  "findByPk_task (tasks (example_db [example_task ''in-progress'' (Some 36000000)])) 40
      = Some (example_task ''in-progress'' (Some 36000000))
   \<and> started_date (example_task ''in-progress'' (Some 36000000)) = Some 36000000
   \<and> now (example_env 41400000 None) = 41400000
   \<and> (\<exists>c t' d'. completeTask (example_env 41400000 None) \<lparr>t_id = 40, t_user = 2\<rparr>
                    (example_db [example_task ''in-progress'' (Some 36000000)]) =
                 (Some (ok ''Task completed successfully'' (Some (CompletedTaskData c))), d')
               \<and> completed_tasks d' = [c]
               \<and> hours c = 1
               \<and> findByPk_task (tasks d') 40 = Some t'
               \<and> exception t' = False \<and> status t' = ''completed''
               \<and> completeTask (example_env 41400000 None) \<lparr>t_id = 40, t_user = 2\<rparr> d' =
                   (Some (failure 403 ''Task is not in progress. First make it in progress.''), d'))
   \<and> length (filter (\<lambda>c. c_task_id c = 40)
        (completed_tasks
          (run [CompleteTask (example_env 41400000 None) \<lparr>t_id = 40, t_user = 2\<rparr>,
                CompleteTask (example_env 41400000 None) \<lparr>t_id = 40, t_user = 2\<rparr>]
             (example_db [example_task ''in-progress'' (Some 36000000)])))) \<le> 1"
proof -
  let ?e = "example_env 41400000 None"
  let ?r = "\<lparr>t_id = 40, t_user = 2\<rparr>"
  let ?t = "example_task ''in-progress'' (Some 36000000)"
  let ?d = "example_db [?t]"
  have h1: "throws_at ?e = None" by (simp add: example_defs)
  have h2: "findByPk_task (tasks ?d) (t_id ?r) = Some ?t" by (simp add: example_defs)
  have h3: "status ?t = ''in-progress'' \<and> \<not> unauthorized (t_user ?r) ?t
      (findOne_project_member (project_members ?d) (t_user ?r) (projectId ?t))"
    by (simp add: example_defs)
  have h4: "one_completion ?d" by (rule one_completion_example)
  have h5: "\<forall>x\<in>set [CompleteTask ?e ?r, CompleteTask ?e ?r]. throws_at (env_of x) = None"
    by (simp add: example_defs)
  have s: "started_date ?t = Some 36000000" by (simp add: example_task_def)
  have n: "now ?e = 41400000" by (simp add: example_env_def)
  have h6: "started_date ?t = Some 36000000 \<and> \<bar>now ?e - 36000000\<bar> < 2 ^ 53"
    by (simp add: s n)
  note inst = completeTask_records_once [OF h1 h2]
  from inst h3 obtain c t' d' where
    c: "completeTask ?e ?r ?d =
          (Some (ok ''Task completed successfully'' (Some (CompletedTaskData c))), d')"
      "completed_tasks d' = completed_tasks ?d @ [c]"
      "\<forall>ms. started_date ?t = Some ms \<and> \<bar>now ?e - ms\<bar> < 2 ^ 53 \<longrightarrow>
         hours c = \<bar>now ?e - ms\<bar> div 3600000"
      "findByPk_task (tasks d') (t_id ?r) = Some t'"
      "t' = ?t\<lparr>exception := (if hours c = 0 then True else exception ?t),
                         status := ''completed''\<rparr>"
      "\<forall>e' req'. throws_at e' = None \<and> t_id req' = t_id ?r \<longrightarrow>
                     completeTask e' req' d' =
                       (Some (failure 403 ''Task is not in progress. First make it in progress.''),
                        d')"
    by blast
  have "hours c = \<bar>now ?e - 36000000\<bar> div 3600000" using c(3) h6 by blast
  then have hrs: "hours c = 1" by (simp add: n)
  have "completed_tasks d' = [c]" using c(2) by (simp add: example_db_def)
  moreover have "exception t' = False \<and> status t' = ''completed''"
    using c(5) hrs by (simp add: example_task_def)
  moreover have "completeTask ?e ?r d' =
      (Some (failure 403 ''Task is not in progress. First make it in progress.''), d')"
    using c(6) h1 by simp
  moreover have "length (filter (\<lambda>c. c_task_id c = 40)
        (completed_tasks (run [CompleteTask ?e ?r, CompleteTask ?e ?r] ?d))) \<le> 1"
    using inst h4 h5 by blast
  ultimately show ?thesis using c(1,4) hrs h2 s n by auto
qed

subsection \<open>C3: an organization keeps an owner\<close>

text \<open>
  Claim C3 fails on \<open>updateOrganizationMember\<close>, which writes the requested role
  without looking at the owners of the organization. From the empty datastore: Ada (user
  1) creates an organization, which makes her its only owner; she then sets her own role
  to member, and the organization has no owner left.
\<close>

theorem sole_owner_demotes_self:
  "findAll_owners
     (organization_members
       (run [CreateOrganization (example_env 0 None)
               \<lparr>co_user = 1, co_name = Given ''Acme'', co_description = Undefined\<rparr>]
          empty_db)) 1 =
     [\<lparr>om_id = 2, om_organizationId = 1, om_userId = 1, om_role = ''owner''\<rparr>]
   \<and> findAll_owners
       (organization_members
         (run [CreateOrganization (example_env 0 None)
                 \<lparr>co_user = 1, co_name = Given ''Acme'', co_description = Undefined\<rparr>,
               UpdateOrganizationMember (example_env 0 None)
                 \<lparr>m_id = 1, m_user = 1, m_userId = 1, m_role = Given ''member''\<rparr>]
            empty_db)) 1 = []"
  by (simp add: createOrganization_def updateOrganizationMember_def save_member_def
      empty_db_def organization_defs Let_def)

subsection \<open>C4: reassignment resets status and start date\<close>

text \<open>
  Claim C4: an update of a task that is not completed, by an authorized actor, whose
  assignee compares unequal to the stored one, succeeds and leaves the task in status todo
  with no start date, whatever status and start date the request carries. (The hypothesis
  that no datastore call throws is the one under which the update is applied at all.)
\<close>

theorem reassignment_resets_progress:
  assumes "throws_at e = None"
    and "findByPk_task (tasks d) (u_id req) = Some t"
    and "\<not> unauthorized (u_user req) t
           (findOne_project_member (project_members d) (u_user req) (projectId t))"
    and "status t \<noteq> ''completed''"
    and "loose_neq (assigneeId t) (u_assigneeId req)"
  shows "\<exists>t'. updateTask e req d =
           (Some (ok ''Task updated successfully'' (Some (TaskData t'))),
            d\<lparr>tasks := save_task t' (tasks d)\<rparr>)
         \<and> findByPk_task (tasks (snd (updateTask e req d))) (u_id req) = Some t'
         \<and> status t' = ''todo'' \<and> started_date t' = None"
proof -
  let ?t' = "(update_fields req t)\<lparr>status := ''todo'', started_date := None\<rparr>"
  have id: "task_id ?t' = u_id req"
    using assms(2) by (simp add: findByPk_task_id)
  have run: "updateTask e req d =
      (Some (ok ''Task updated successfully'' (Some (TaskData ?t'))),
       d\<lparr>tasks := save_task ?t' (tasks d)\<rparr>)"
    using assms by (simp add: updateTask_def plain_update_def thrown_def updated_def Let_def)
  have "findByPk_task (tasks (snd (updateTask e req d))) (u_id req) = Some ?t'"
    using assms(2) id by (simp add: run findByPk_save_task_same)
  with run show ?thesis by (intro exI [of _ ?t']) simp
qed

text \<open>
  Bob's task is in progress; the request names Eve as assignee and asks for status
  in-progress with a start date.
\<close>

theorem reassignment_resets_progress_witness:
  "findByPk_task (tasks (example_db [example_task ''in-progress'' (Some 0)])) 40
     = Some (example_task ''in-progress'' (Some 0))
   \<and> loose_neq 2 (Given 3)
   \<and> (\<exists>t'. updateTask (example_env 5400000 None) (example_update (Given 3) (Given ''in-progress''))
              (example_db [example_task ''in-progress'' (Some 0)]) =
             (Some (ok ''Task updated successfully'' (Some (TaskData t'))),
              (example_db [example_task ''in-progress'' (Some 0)])
                \<lparr>tasks := save_task t' [example_task ''in-progress'' (Some 0)]\<rparr>)
           \<and> status t' = ''todo'' \<and> started_date t' = None)"
proof -
  let ?e = "example_env 5400000 None"
  let ?r = "example_update (Given 3) (Given ''in-progress'')"
  let ?t = "example_task ''in-progress'' (Some 0)"
  let ?d = "example_db [?t]"
  have h1: "throws_at ?e = None" by (simp add: example_defs)
  have h2: "findByPk_task (tasks ?d) (u_id ?r) = Some ?t" by (simp add: example_defs)
  have h3: "\<not> unauthorized (u_user ?r) ?t
      (findOne_project_member (project_members ?d) (u_user ?r) (projectId ?t))"
    by (simp add: example_defs)
  have h4: "status ?t \<noteq> ''completed''" by (simp add: example_defs)
  have h5: "loose_neq (assigneeId ?t) (u_assigneeId ?r)" by (simp add: example_defs)
  have t: "tasks ?d = [?t]" by (simp add: example_db_def)
  have u: "u_id ?r = 40" by (simp add: example_update_def)
  show ?thesis
    using reassignment_resets_progress [OF h1 h2 h3 h4 h5] h2 unfolding t u by auto
qed

subsection \<open>C5: the first transition into in-progress records the start\<close>

text \<open>
  Claim C5 fails on the code for the request of its scenario, which gives the status and
  no assignee. The test for a changed assignee (\<open>task.assigneeId != assigneeId\<close>)
  holds against \<open>undefined\<close>, so the handler takes the reassignment branch and never
  reaches the in-progress rule: on Bob's task in status todo the answer is a success and
  the task stays in status todo without a start date, where the claim has it in progress
  with the clock's value as start date; on his task in progress the answer is a success
  and the task is put back to todo, where the claim has the request refused with 403 and
  nothing changed.
\<close>

theorem status_only_update_restarts_task:
  "updateTask (example_env 41400000 None) status_only_update
       (example_db [example_task ''todo'' None]) =
     (Some (ok ''Task updated successfully'' (Some (TaskData (example_task ''todo'' None)))),
      example_db [example_task ''todo'' None])
   \<and> updateTask (example_env 41400000 None) status_only_update
       (example_db [example_task ''in-progress'' (Some 36000000)]) =
     (Some (ok ''Task updated successfully'' (Some (TaskData (example_task ''todo'' None)))),
      example_db [example_task ''todo'' None])"
  by (simp add: status_only_update_def example_defs updateTask_def updated_def
      update_fields_def save_task_def thrown_def Let_def ok_def)

text \<open>
  The in-progress rule itself is as the claim has it, for the requests that reach it: those
  whose body carries the stored assignee. For such a request with status in-progress, on a
  task that exists, when no datastore call throws: if the task is already in progress the
  answer is 403 and nothing is written (for an authorized actor with the message of the
  in-progress check); if an authorized actor sends it for a task that is neither in
  progress nor completed and has no start date, the task gets status in-progress and the
  clock's value as start date.
\<close>

theorem first_start_records_instant:
  assumes "throws_at e = None"
    and "findByPk_task (tasks d) (u_id req) = Some t"
    and "u_status req = Given ''in-progress''"
    and "u_assigneeId req = Given (assigneeId t)"
  shows "(status t = ''in-progress'' \<longrightarrow>
            (\<exists>r. updateTask e req d = (Some r, d) \<and> code r = 403 \<and> success r = Some False))
       \<and> (status t = ''in-progress'' \<and>
          \<not> unauthorized (u_user req) t
              (findOne_project_member (project_members d) (u_user req) (projectId t)) \<longrightarrow>
            updateTask e req d = (Some (failure 403 ''Task is already in progress.''), d))
       \<and> (status t \<noteq> ''in-progress'' \<and> status t \<noteq> ''completed'' \<and> started_date t = None \<and>
          \<not> unauthorized (u_user req) t
              (findOne_project_member (project_members d) (u_user req) (projectId t)) \<longrightarrow>
            (\<exists>t'. updateTask e req d =
                (Some (ok ''Task updated successfully'' (Some (TaskData t'))),
                 d\<lparr>tasks := save_task t' (tasks d)\<rparr>)
              \<and> findByPk_task (tasks (snd (updateTask e req d))) (u_id req) = Some t'
              \<and> status t' = ''in-progress'' \<and> started_date t' = Some (now e)))"
proof (intro conjI impI)
  assume "status t = ''in-progress''"
  then show "\<exists>r. updateTask e req d = (Some r, d) \<and> code r = 403 \<and> success r = Some False"
    using assms by (simp add: updateTask_def plain_update_def thrown_def Let_def failure_def)
next
  assume "status t = ''in-progress'' \<and>
    \<not> unauthorized (u_user req) t
        (findOne_project_member (project_members d) (u_user req) (projectId t))"
  then show "updateTask e req d = (Some (failure 403 ''Task is already in progress.''), d)"
    using assms by (simp add: updateTask_def plain_update_def thrown_def Let_def)
next
  let ?t' = "(update_fields req t)\<lparr>status := ''in-progress'', started_date := Some (now e)\<rparr>"
  assume a: "status t \<noteq> ''in-progress'' \<and> status t \<noteq> ''completed'' \<and> started_date t = None \<and>
    \<not> unauthorized (u_user req) t
        (findOne_project_member (project_members d) (u_user req) (projectId t))"
  have id: "task_id ?t' = u_id req"
    using assms(2) by (simp add: findByPk_task_id)
  have run: "updateTask e req d =
      (Some (ok ''Task updated successfully'' (Some (TaskData ?t'))),
       d\<lparr>tasks := save_task ?t' (tasks d)\<rparr>)"
    using assms a by (simp add: updateTask_def plain_update_def thrown_def updated_def Let_def)
  have "findByPk_task (tasks (snd (updateTask e req d))) (u_id req) = Some ?t'"
    using assms(2) id by (simp add: run findByPk_save_task_same)
  with run show "\<exists>t'. updateTask e req d =
                (Some (ok ''Task updated successfully'' (Some (TaskData t'))),
                 d\<lparr>tasks := save_task t' (tasks d)\<rparr>)
              \<and> findByPk_task (tasks (snd (updateTask e req d))) (u_id req) = Some t'
              \<and> status t' = ''in-progress'' \<and> started_date t' = Some (now e)"
    by (intro exI [of _ ?t']) simp
qed

text \<open>
  Both cases on the example: the request on the task in progress, and on the task in
  status todo.
\<close>

theorem first_start_records_instant_witness:
  "updateTask (example_env 5400000 None) (example_update (Given 2) (Given ''in-progress''))
       (example_db [example_task ''in-progress'' (Some 0)]) =
     (Some (failure 403 ''Task is already in progress.''),
      example_db [example_task ''in-progress'' (Some 0)])
   \<and> (\<exists>t'. updateTask (example_env 5400000 None) (example_update (Given 2) (Given ''in-progress''))
              (example_db [example_task ''todo'' None]) =
             (Some (ok ''Task updated successfully'' (Some (TaskData t'))),
              (example_db [example_task ''todo'' None])
                \<lparr>tasks := save_task t' [example_task ''todo'' None]\<rparr>)
           \<and> status t' = ''in-progress'' \<and> started_date t' = Some 5400000)"
proof -
  let ?e = "example_env 5400000 None"
  let ?r = "example_update (Given 2) (Given ''in-progress'')"
  let ?t1 = "example_task ''in-progress'' (Some 0)"
  let ?t2 = "example_task ''todo'' None"
  have h1: "throws_at ?e = None" by (simp add: example_defs)
  have h3: "u_status ?r = Given ''in-progress''" by (simp add: example_defs)
  have a2: "findByPk_task (tasks (example_db [?t1])) (u_id ?r) = Some ?t1"
    by (simp add: example_defs)
  have a4: "u_assigneeId ?r = Given (assigneeId ?t1)" by (simp add: example_defs)
  have a5: "status ?t1 = ''in-progress'' \<and> \<not> unauthorized (u_user ?r) ?t1
      (findOne_project_member (project_members (example_db [?t1])) (u_user ?r) (projectId ?t1))"
    by (simp add: example_defs)
  have b2: "findByPk_task (tasks (example_db [?t2])) (u_id ?r) = Some ?t2"
    by (simp add: example_defs)
  have b4: "u_assigneeId ?r = Given (assigneeId ?t2)" by (simp add: example_defs)
  have b5: "status ?t2 \<noteq> ''in-progress'' \<and> status ?t2 \<noteq> ''completed'' \<and>
      started_date ?t2 = None \<and> \<not> unauthorized (u_user ?r) ?t2
      (findOne_project_member (project_members (example_db [?t2])) (u_user ?r) (projectId ?t2))"
    by (simp add: example_defs)
  have t: "tasks (example_db [?t2]) = [?t2]" by (simp add: example_db_def)
  have n: "now ?e = 5400000" by (simp add: example_env_def)
  have "updateTask ?e ?r (example_db [?t1]) =
      (Some (failure 403 ''Task is already in progress.''), example_db [?t1])"
    using first_start_records_instant [OF h1 a2 h3 a4] a5 by blast
  moreover have "\<exists>t'. updateTask ?e ?r (example_db [?t2]) =
             (Some (ok ''Task updated successfully'' (Some (TaskData t'))),
              (example_db [?t2])\<lparr>tasks := save_task t' [?t2]\<rparr>)
           \<and> status t' = ''in-progress'' \<and> started_date t' = Some 5400000"
    using first_start_records_instant [OF h1 b2 h3 b4] b5 unfolding t n by blast
  ultimately show ?thesis by blast
qed

subsection \<open>C6: an invite secret is used once\<close>

text \<open>
  Claim C6: let the pending invites carry distinct secrets and let an invite with secret
  \<open>s\<close> for user \<open>u\<close> exist. When no datastore call throws,
  \<open>acceptInvitation\<close> by \<open>u\<close> succeeds, adds one membership with role member
  for the invited user and destroys the invite; \<open>rejectInvitation\<close> changes nothing
  but the invites, where it destroys that invite. After either, and after any further
  requests that issue no new invite with the same secret, \<open>acceptInvitation\<close> and
  \<open>rejectInvitation\<close> with \<open>s\<close> by any user answer 404 and change nothing.
\<close>

theorem invite_secret_single_use:
  assumes "distinct (map inv_secret (invites d))"
    and "findOne_invite (invites d) s u = Some i"
    and "throws_at e = None"
  shows "acceptInvitation e \<lparr>a_secret = s, a_user = u\<rparr> d =
           (Some (ok ''Invite accepted successfully.''
              (Some (MemberData \<lparr>om_id = next_id d, om_organizationId = inv_organizationId i,
                                 om_userId = inv_userId i, om_role = ''member''\<rparr>))),
            d\<lparr>organization_members := organization_members d @
                 [\<lparr>om_id = next_id d, om_organizationId = inv_organizationId i,
                   om_userId = inv_userId i, om_role = ''member''\<rparr>],
               next_id := Suc (next_id d),
               invites := destroy_invite i (invites d)\<rparr>)
       \<and> snd (rejectInvitation e \<lparr>a_secret = s, a_user = u\<rparr> d) =
           d\<lparr>invites := destroy_invite i (invites d)\<rparr>
       \<and> (\<forall>d' xs e' u'.
            (d' = snd (acceptInvitation e \<lparr>a_secret = s, a_user = u\<rparr> d) \<or>
             d' = snd (rejectInvitation e \<lparr>a_secret = s, a_user = u\<rparr> d)) \<and>
            (\<forall>x\<in>set xs. issued_secret x \<noteq> Some s) \<and> throws_at e' = None \<longrightarrow>
            acceptInvitation e' \<lparr>a_secret = s, a_user = u'\<rparr> (run xs d') =
              (Some (failure 404 ''Invite not found''), run xs d') \<and>
            rejectInvitation e' \<lparr>a_secret = s, a_user = u'\<rparr> (run xs d') =
              (Some (failure 404 ''Invite not found''), run xs d'))"
proof -
  let ?m = "\<lparr>om_id = next_id d, om_organizationId = inv_organizationId i,
             om_userId = inv_userId i, om_role = ''member''\<rparr>"
  let ?a = "d\<lparr>organization_members := organization_members d @ [?m],
              next_id := Suc (next_id d), invites := destroy_invite i (invites d)\<rparr>"
  let ?r = "d\<lparr>invites := destroy_invite i (invites d)\<rparr>"
  have acc: "acceptInvitation e \<lparr>a_secret = s, a_user = u\<rparr> d =
      (Some (ok ''Invite accepted successfully.'' (Some (MemberData ?m))), ?a)"
    using assms(2,3) by (simp add: acceptInvitation_def thrown_def Let_def)
  have rej: "snd (rejectInvitation e \<lparr>a_secret = s, a_user = u\<rparr> d) = ?r"
    using assms(2,3) by (simp add: rejectInvitation_def thrown_def)
  have gone: "s \<notin> inv_secret ` set (destroy_invite i (invites d))"
    using assms(1,2) by (rule destroy_invite_consumes)
  have later: "acceptInvitation e' \<lparr>a_secret = s, a_user = u'\<rparr> (run xs d') =
              (Some (failure 404 ''Invite not found''), run xs d') \<and>
            rejectInvitation e' \<lparr>a_secret = s, a_user = u'\<rparr> (run xs d') =
              (Some (failure 404 ''Invite not found''), run xs d')"
    if "(d' = snd (acceptInvitation e \<lparr>a_secret = s, a_user = u\<rparr> d) \<or>
         d' = snd (rejectInvitation e \<lparr>a_secret = s, a_user = u\<rparr> d)) \<and>
        (\<forall>x\<in>set xs. issued_secret x \<noteq> Some s) \<and> throws_at e' = None"
    for d' xs e' u'
  proof -
    have "s \<notin> inv_secret ` set (invites d')"
      using that gone acc rej by auto
    then have "s \<notin> inv_secret ` set (invites (run xs d'))"
      using that by (intro secret_stays_absent) simp_all
    then show ?thesis using that by (simp add: invitation_absent)
  qed
  show ?thesis using acc rej later by blast
qed

text \<open>
  Eve's invite on the example: accepted it makes her a member and is gone; rejected it is
  gone; afterwards the secret is not found, also after a new invite (with another secret)
  was sent to her.
\<close>

theorem invite_secret_single_use_witness:
  "findOne_invite (invites (example_db [])) ''s-1'' 3 =
     Some \<lparr>inv_id = 30, inv_organizationId = 5, inv_email = ''eve@example.org'',
           inv_userId = 3, inv_secret = ''s-1''\<rparr>
   \<and> organization_members
       (snd (acceptInvitation (example_env 0 None) \<lparr>a_secret = ''s-1'', a_user = 3\<rparr>
               (example_db []))) =
     organization_members (example_db []) @
       [\<lparr>om_id = 100, om_organizationId = 5, om_userId = 3, om_role = ''member''\<rparr>]
   \<and> invites
       (snd (acceptInvitation (example_env 0 None) \<lparr>a_secret = ''s-1'', a_user = 3\<rparr>
               (example_db []))) = []
   \<and> snd (rejectInvitation (example_env 0 None) \<lparr>a_secret = ''s-1'', a_user = 3\<rparr>
            (example_db [])) = (example_db [])\<lparr>invites := []\<rparr>
   \<and> acceptInvitation (example_env 0 None) \<lparr>a_secret = ''s-1'', a_user = 3\<rparr>
       (run [InviteUserToOrganization (example_env 0 None)
               \<lparr>i_id = 5, i_user = 1, i_email = ''eve@example.org''\<rparr>]
          (snd (rejectInvitation (example_env 0 None) \<lparr>a_secret = ''s-1'', a_user = 3\<rparr>
                  (example_db [])))) =
       (Some (failure 404 ''Invite not found''),
        run [InviteUserToOrganization (example_env 0 None)
               \<lparr>i_id = 5, i_user = 1, i_email = ''eve@example.org''\<rparr>]
          (snd (rejectInvitation (example_env 0 None) \<lparr>a_secret = ''s-1'', a_user = 3\<rparr>
                  (example_db []))))
   \<and> rejectInvitation (example_env 0 None) \<lparr>a_secret = ''s-1'', a_user = 3\<rparr>
       (snd (acceptInvitation (example_env 0 None) \<lparr>a_secret = ''s-1'', a_user = 3\<rparr>
               (example_db []))) =
       (Some (failure 404 ''Invite not found''),
        snd (acceptInvitation (example_env 0 None) \<lparr>a_secret = ''s-1'', a_user = 3\<rparr>
               (example_db [])))"
proof -
  let ?e = "example_env 0 None"
  let ?q = "\<lparr>a_secret = ''s-1'', a_user = 3\<rparr>"
  let ?d = "example_db []"
  let ?i = "\<lparr>inv_id = 30, inv_organizationId = 5, inv_email = ''eve@example.org'',
           inv_userId = 3, inv_secret = ''s-1''\<rparr>"
  let ?xs = "[InviteUserToOrganization ?e \<lparr>i_id = 5, i_user = 1, i_email = ''eve@example.org''\<rparr>]"
  have h1: "distinct (map inv_secret (invites ?d))" by (simp add: organization_defs)
  have h2: "findOne_invite (invites ?d) ''s-1'' 3 = Some ?i" by (simp add: organization_defs)
  have h3: "throws_at ?e = None" by (simp add: organization_defs)
  have x: "\<forall>x\<in>set ?xs. issued_secret x \<noteq> Some ''s-1''" by (simp add: example_env_def)
  have y: "\<forall>x\<in>set ([]::operation list). issued_secret x \<noteq> Some ''s-1''" by simp
  note inst = invite_secret_single_use [OF h1 h2 h3]
  have acc: "snd (acceptInvitation ?e ?q ?d) =
      ?d\<lparr>organization_members := organization_members ?d @
            [\<lparr>om_id = next_id ?d, om_organizationId = inv_organizationId ?i,
              om_userId = inv_userId ?i, om_role = ''member''\<rparr>],
         next_id := Suc (next_id ?d), invites := destroy_invite ?i (invites ?d)\<rparr>"
    using inst by simp
  have rej: "snd (rejectInvitation ?e ?q ?d) = ?d\<lparr>invites := destroy_invite ?i (invites ?d)\<rparr>"
    using inst by simp
  have gone: "destroy_invite ?i (invites ?d) = []"
    by (simp add: destroy_invite_def example_db_def)
  have "acceptInvitation ?e ?q (run ?xs (snd (rejectInvitation ?e ?q ?d))) =
      (Some (failure 404 ''Invite not found''), run ?xs (snd (rejectInvitation ?e ?q ?d)))"
    using inst x h3 by blast
  moreover have "rejectInvitation ?e ?q (run [] (snd (acceptInvitation ?e ?q ?d))) =
      (Some (failure 404 ''Invite not found''), run [] (snd (acceptInvitation ?e ?q ?d)))"
    using inst y h3 by blast
  moreover have "organization_members (snd (acceptInvitation ?e ?q ?d)) =
      organization_members ?d @
        [\<lparr>om_id = 100, om_organizationId = 5, om_userId = 3, om_role = ''member''\<rparr>]"
    unfolding acc by (simp add: example_db_def)
  moreover have "invites (snd (acceptInvitation ?e ?q ?d)) = []"
    unfolding acc using gone by simp
  moreover have "snd (rejectInvitation ?e ?q ?d) = ?d\<lparr>invites := []\<rparr>"
    unfolding rej using gone by simp
  ultimately show ?thesis using h2 by simp
qed

text \<open>
  The hypothesis of distinct secrets is kept by every operation, as long as a new invite
  gets a secret that no pending invite carries.
\<close>

lemma distinct_secrets_step:
  assumes "distinct (map inv_secret (invites d))"
    and "\<forall>s. issued_secret x = Some s \<longrightarrow> s \<notin> inv_secret ` set (invites d)"
  shows "distinct (map inv_secret (invites (snd (step x d))))"
  using step_invites [of x d] assms
  by (auto simp add: destroy_invite_def distinct_map_filter)

subsection \<open>C7: failures and the datastore\<close>

text \<open>
  Claim C7 as stated has every failure leave the datastore as it was. The handlers run
  their writes one after the other, outside any transaction: Bob completes task 40 ten
  seconds after its start, the exception flag is written, and then
  \<open>CompletedTask.create\<close> (datastore call 3 of the request) throws. The answer is
  the 500 failure and the exception flag stays set.
\<close>

theorem completeTask_keeps_flag_after_failure:
  "completeTask (example_env 10000 (Some 3)) \<lparr>t_id = 40, t_user = 2\<rparr>
       (example_db [example_task ''in-progress'' (Some 0)]) =
     (Some (failure 500 ''connection lost''),
      (example_db [example_task ''in-progress'' (Some 0)])
        \<lparr>tasks := [(example_task ''in-progress'' (Some 0))\<lparr>exception := True\<rparr>]\<rparr>)
   \<and> exception (example_task ''in-progress'' (Some 0)) = False
   \<and> snd (completeTask (example_env 10000 (Some 3)) \<lparr>t_id = 40, t_user = 2\<rparr>
            (example_db [example_task ''in-progress'' (Some 0)]))
       \<noteq> example_db [example_task ''in-progress'' (Some 0)]"
  by (simp add: completeTask_def record_completion_def diffInHours_def save_task_def
      internal_def example_defs thrown_def Let_def)

text \<open>
  Claim C7, amended: whenever an operation answers with a 4xx status (not found,
  forbidden or unauthorized, bad request), it has changed nothing in the datastore.
\<close>

theorem client_errors_change_nothing:
  assumes "step x d = (Some resp, d')" and "400 \<le> code resp" and "code resp < 500"
  shows "d' = d"
proof (cases x)
  case (CreateTask e r)
  then show ?thesis using assms by (auto dest: createTask_client_error)
next
  case (DeleteTask e r)
  then show ?thesis using assms by (auto dest: deleteTask_client_error)
next
  case (UpdateTask e r)
  then show ?thesis using assms by (auto dest: updateTask_client_error)
next
  case (CompleteTask e r)
  then show ?thesis using assms by (auto dest: completeTask_client_error)
next
  case (CreateOrganization e r)
  then show ?thesis using assms by (auto dest: createOrganization_client_error)
next
  case (DeleteOrganization e r)
  then show ?thesis using assms by (auto dest: deleteOrganization_client_error)
next
  case (UpdateOrganization e r)
  then show ?thesis using assms by (auto dest: updateOrganization_client_error)
next
  case (InviteUserToOrganization e r)
  then show ?thesis using assms by (auto dest: inviteUserToOrganization_client_error)
next
  case (AcceptInvitation e r)
  then show ?thesis using assms by (auto dest: acceptInvitation_client_error)
next
  case (RejectInvitation e r)
  then show ?thesis using assms by (auto dest: rejectInvitation_client_error)
next
  case (RemoveOrganizationMember e r)
  then show ?thesis using assms by (auto dest: removeOrganizationMember_client_error)
next
  case (UpdateOrganizationMember e r)
  then show ?thesis using assms by (auto dest: updateOrganizationMember_client_error)
qed

text \<open>
  The refusal to complete a task that is not in progress.
\<close>

theorem client_errors_change_nothing_witness:
  "step (CompleteTask (example_env 0 None) \<lparr>t_id = 40, t_user = 2\<rparr>)
        (example_db [example_task ''todo'' None]) =
     (Some (failure 403 ''Task is not in progress. First make it in progress.''),
      example_db [example_task ''todo'' None])
   \<and> (400::nat) \<le> 403 \<and> (403::nat) < 500"
proof -
  let ?x = "CompleteTask (example_env 0 None) \<lparr>t_id = 40, t_user = 2\<rparr>"
  let ?d = "example_db [example_task ''todo'' None]"
  obtain resp d' where s: "step ?x ?d = (Some resp, d')"
    and r: "resp = failure 403 ''Task is not in progress. First make it in progress.''"
    by (simp add: completeTask_def example_defs thrown_def)
  have c: "400 \<le> code resp" "code resp < 500" using r by (simp_all add: failure_def)
  have "d' = ?d" using s c by (rule client_errors_change_nothing)
  then show ?thesis using s r by simp
qed

subsection \<open>C8: getSession\<close>

text \<open>
  Claim C8 fails on the code: the session with id 50 exists and is valid, and
  \<open>getSession\<close> returns null for it, since it tests the pending promise of the query
  and not the row.
\<close>

theorem getSession_of_valid_session:
  "findOne_session (sessions (example_db [])) 50 = Some \<lparr>s_id = 50, s_userId = 1, valid = True\<rparr>
   \<and> getSession (example_db []) 50 = None"
  by (simp add: getSession_def promise_valid_def findOne_session_def example_db_def)

subsection \<open>C9: the response envelope\<close>

text \<open>
  Claim C9 fails on the code: \<open>updateOrganizationMember\<close> sends no response after
  a successful update, and the success response of \<open>deleteOrganization\<close> has no
  \<open>success\<close> field.
\<close>

theorem responses_outside_envelope:
  "fst (updateOrganizationMember (example_env 0 None)
          \<lparr>m_id = 5, m_user = 1, m_userId = 2, m_role = Given ''owner''\<rparr> (example_db [])) = None
   \<and> fst (deleteOrganization (example_env 0 None) \<lparr>o_id = 5, o_user = 1\<rparr> (example_db [])) =
       Some \<lparr>code = 200, success = None, message = ''Organization deleted successfully'',
             data = None\<rparr>"
  by (simp add: updateOrganizationMember_def deleteOrganization_def organization_defs)

subsection \<open>C10: an update without assigneeId resets the task\<close>

text \<open>
  Claim C10: an update of a task that is not completed, by an authorized actor, whose body
  has no \<open>assigneeId\<close>: the stored assignee compares unequal to \<open>undefined\<close>, the
  reassignment branch is taken, and the task is left in status todo with no start date
  and the assignee it had. (As for C4, under the hypothesis that no datastore call
  throws.)
\<close>

theorem absent_assignee_resets_progress:
  assumes "throws_at e = None"
    and "findByPk_task (tasks d) (u_id req) = Some t"
    and "\<not> unauthorized (u_user req) t
           (findOne_project_member (project_members d) (u_user req) (projectId t))"
    and "status t \<noteq> ''completed''"
    and "u_assigneeId req = Undefined"
  shows "loose_neq (assigneeId t) (u_assigneeId req)
         \<and> (\<exists>t'. updateTask e req d =
                (Some (ok ''Task updated successfully'' (Some (TaskData t'))),
                 d\<lparr>tasks := save_task t' (tasks d)\<rparr>)
              \<and> findByPk_task (tasks (snd (updateTask e req d))) (u_id req) = Some t'
              \<and> assigneeId t' = assigneeId t
              \<and> status t' = ''todo'' \<and> started_date t' = None)"
proof -
  let ?t' = "(update_fields req t)\<lparr>status := ''todo'', started_date := None\<rparr>"
  have neq: "loose_neq (assigneeId t) (u_assigneeId req)"
    using assms(5) by simp
  have id: "task_id ?t' = u_id req"
    using assms(2) by (simp add: findByPk_task_id)
  have run: "updateTask e req d =
      (Some (ok ''Task updated successfully'' (Some (TaskData ?t'))),
       d\<lparr>tasks := save_task ?t' (tasks d)\<rparr>)"
    using assms(1-4) neq by (simp add: updateTask_def plain_update_def thrown_def updated_def Let_def)
  have "findByPk_task (tasks (snd (updateTask e req d))) (u_id req) = Some ?t'"
    using assms(2) id by (simp add: run findByPk_save_task_same)
  moreover have "assigneeId ?t' = assigneeId t"
    using assms(5) by (simp add: update_fields_def)
  ultimately show ?thesis using run neq by (intro conjI exI [of _ ?t']) simp_all
qed

text \<open>
  Bob's task is in progress; the request has no assignee.
\<close>

theorem absent_assignee_resets_progress_witness:
  "u_assigneeId (example_update Undefined (Given ''in-progress'')) = Undefined
   \<and> loose_neq 2 Undefined
   \<and> (\<exists>t'. updateTask (example_env 5400000 None) (example_update Undefined (Given ''in-progress''))
              (example_db [example_task ''in-progress'' (Some 0)]) =
             (Some (ok ''Task updated successfully'' (Some (TaskData t'))),
              (example_db [example_task ''in-progress'' (Some 0)])
                \<lparr>tasks := save_task t' [example_task ''in-progress'' (Some 0)]\<rparr>)
           \<and> assigneeId t' = 2 \<and> status t' = ''todo'' \<and> started_date t' = None)"
proof -
  let ?e = "example_env 5400000 None"
  let ?r = "example_update Undefined (Given ''in-progress'')"
  let ?t = "example_task ''in-progress'' (Some 0)"
  let ?d = "example_db [?t]"
  have h1: "throws_at ?e = None" by (simp add: example_defs)
  have h2: "findByPk_task (tasks ?d) (u_id ?r) = Some ?t" by (simp add: example_defs)
  have h3: "\<not> unauthorized (u_user ?r) ?t
      (findOne_project_member (project_members ?d) (u_user ?r) (projectId ?t))"
    by (simp add: example_defs)
  have h4: "status ?t \<noteq> ''completed''" by (simp add: example_defs)
  have h5: "u_assigneeId ?r = Undefined" by (simp add: example_defs)
  have t: "tasks ?d = [?t]" by (simp add: example_db_def)
  have a: "assigneeId ?t = 2" by (simp add: example_task_def)
  show ?thesis
    using absent_assignee_resets_progress [OF h1 h2 h3 h4 h5] h5 unfolding t a by auto
qed

section \<open>Further properties of the handlers\<close>

lemma findOne_organization_member_mem:
  "findOne_organization_member ms k u = Some m \<Longrightarrow> m \<in> set ms"
  unfolding findOne_organization_member_def by (induction ms) (auto split: if_splits)

lemma removeOrganizationMember_effect:
  "snd (removeOrganizationMember e r d) = d \<or>
   (\<exists>m. m \<in> set (organization_members d) \<and> om_role m \<noteq> ''owner'' \<and>
      snd (removeOrganizationMember e r d) =
        d\<lparr>organization_members := destroy_member m (organization_members d)\<rparr>)"
proof (cases "findOne_organization_member (organization_members d) (r_id r) (r_userId r)")
  case None
  then show ?thesis by (simp add: removeOrganizationMember_def)
next
  case (Some m)
  have "snd (removeOrganizationMember e r d) = d \<or>
      om_role m \<noteq> ''owner'' \<and> snd (removeOrganizationMember e r d) =
        d\<lparr>organization_members := destroy_member m (organization_members d)\<rparr>"
    using Some by (simp add: removeOrganizationMember_def Let_def)
  then show ?thesis
    using findOne_organization_member_mem [OF Some] by blast
qed

lemma owners_after_destroy:
  assumes "distinct (map om_id ms)" and "m \<in> set ms" and "om_role m \<noteq> ''owner''"
  shows "findAll_owners (destroy_member m ms) k = findAll_owners ms k"
proof -
  have "inj_on om_id (set ms)" using assms(1) by (simp add: distinct_map)
  then have "\<forall>x\<in>set ms. om_id x = om_id m \<longrightarrow> x = m"
    using assms(2) by (auto dest: inj_onD)
  then have "\<forall>x\<in>set ms. (om_organizationId x = k \<and> om_role x = ''owner'') \<longrightarrow>
      om_id x \<noteq> om_id m"
    using assms(3) by auto
  then show ?thesis
    unfolding findAll_owners_def destroy_member_def
    by (induction ms) auto
qed

subsection \<open>The last-owner guard of removeOrganizationMember\<close>

text \<open>
  The guard on the number of owners is reached for every member who is not an owner: in an
  organization with exactly one owner, \<open>removeOrganizationMember\<close> refuses to remove
  any member, with status 400 and the message of the last owner.
\<close>

theorem single_owner_blocks_removal:
  assumes "throws_at e = None"
    and "\<not> not_owner (findOne_organization_member (organization_members d) (r_id r) (r_user r))"
    and "findOne_organization_member (organization_members d) (r_id r) (r_userId r) = Some m"
    and "om_role m \<noteq> ''owner''"
    and "length (findAll_owners (organization_members d) (r_id r)) = 1"
  shows "removeOrganizationMember e r d =
    (Some (failure 400 ''You cannot remove the last owner of the organization.''), d)"
  using assms by (simp add: removeOrganizationMember_def thrown_def Let_def)

text \<open>
  Ada, the only owner, cannot remove Bob.
\<close>

theorem single_owner_blocks_removal_witness:
  "length (findAll_owners (organization_members (example_db [])) 5) = 1
   \<and> removeOrganizationMember (example_env 0 None) \<lparr>r_id = 5, r_user = 1, r_userId = 2\<rparr>
        (example_db []) =
      (Some (failure 400 ''You cannot remove the last owner of the organization.''),
       example_db [])"
proof -
  let ?e = "example_env 0 None"
  let ?r = "\<lparr>r_id = 5, r_user = 1, r_userId = 2\<rparr>"
  let ?d = "example_db []"
  let ?m = "\<lparr>om_id = 21, om_organizationId = 5, om_userId = 2, om_role = ''member''\<rparr>"
  have h1: "throws_at ?e = None" by (simp add: organization_defs)
  have h2: "\<not> not_owner (findOne_organization_member (organization_members ?d) (r_id ?r) (r_user ?r))"
    by (simp add: organization_defs)
  have h3: "findOne_organization_member (organization_members ?d) (r_id ?r) (r_userId ?r) = Some ?m"
    by (simp add: organization_defs)
  have h4: "om_role ?m \<noteq> ''owner''" by simp
  have h5: "length (findAll_owners (organization_members ?d) (r_id ?r)) = 1"
    by (simp add: organization_defs)
  show ?thesis
    using single_owner_blocks_removal [OF h1 h2 h3 h4 h5] h5 by simp
qed

subsection \<open>removeOrganizationMember keeps the owners\<close>

text \<open>
  When membership rows have distinct keys, \<open>removeOrganizationMember\<close> leaves the
  owners of every organization as they were, whatever the request and the datastore
  errors.
\<close>

theorem removal_keeps_owners:
  assumes "distinct (map om_id (organization_members d))"
  shows "findAll_owners (organization_members (snd (removeOrganizationMember e r d))) k =
         findAll_owners (organization_members d) k"
  using removeOrganizationMember_effect [of e r d] assms
  by (auto simp add: owners_after_destroy)

text \<open>
  On the example the owner of organization 5 is still Ada.
\<close>

theorem removal_keeps_owners_witness:
  "distinct (map om_id (organization_members (example_db [])))
   \<and> findAll_owners (organization_members
        (snd (removeOrganizationMember (example_env 0 None)
                \<lparr>r_id = 5, r_user = 1, r_userId = 2\<rparr> (example_db [])))) 5 =
      [\<lparr>om_id = 20, om_organizationId = 5, om_userId = 1, om_role = ''owner''\<rparr>]"
proof -
  have h: "distinct (map om_id (organization_members (example_db [])))"
    by (simp add: example_db_def)
  have "findAll_owners (organization_members (example_db [])) 5 =
      [\<lparr>om_id = 20, om_organizationId = 5, om_userId = 1, om_role = ''owner''\<rparr>]"
    by (simp add: organization_defs)
  then show ?thesis
    using removal_keeps_owners [OF h, of "example_env 0 None" "\<lparr>r_id = 5, r_user = 1, r_userId = 2\<rparr>" 5] h
    by simp
qed

subsection \<open>getSession returns null\<close>

text \<open>
  \<open>getSession\<close> returns null for every datastore and every session id.
\<close>

theorem getSession_returns_null: "getSession d k = None"
  by (simp add: getSession_def promise_valid_def)

subsection \<open>rejectInvitation answers 500 after destroying the invite\<close>

text \<open>
  When the invite exists and no datastore call throws, \<open>rejectInvitation\<close> destroys
  the invite and answers with the 500 failure of the ReferenceError.
\<close>

theorem rejectInvitation_destroys_then_fails:
  assumes "throws_at e = None"
    and "findOne_invite (invites d) (a_secret r) (a_user r) = Some i"
  shows "rejectInvitation e r d =
    (Some (failure 500 ''organizationMember is not defined''),
     d\<lparr>invites := destroy_invite i (invites d)\<rparr>)"
  using assms by (simp add: rejectInvitation_def thrown_def)

text \<open>
  Eve rejects her invite.
\<close>

theorem rejectInvitation_destroys_then_fails_witness:
  "findOne_invite (invites (example_db [])) ''s-1'' 3 =
     Some \<lparr>inv_id = 30, inv_organizationId = 5, inv_email = ''eve@example.org'',
           inv_userId = 3, inv_secret = ''s-1''\<rparr>
   \<and> rejectInvitation (example_env 0 None) \<lparr>a_secret = ''s-1'', a_user = 3\<rparr> (example_db []) =
     (Some (failure 500 ''organizationMember is not defined''),
      (example_db [])\<lparr>invites := []\<rparr>)"
proof -
  let ?e = "example_env 0 None"
  let ?q = "\<lparr>a_secret = ''s-1'', a_user = 3\<rparr>"
  let ?d = "example_db []"
  let ?i = "\<lparr>inv_id = 30, inv_organizationId = 5, inv_email = ''eve@example.org'',
           inv_userId = 3, inv_secret = ''s-1''\<rparr>"
  have h1: "throws_at ?e = None" by (simp add: organization_defs)
  have h2: "findOne_invite (invites ?d) (a_secret ?q) (a_user ?q) = Some ?i"
    by (simp add: organization_defs)
  have gone: "destroy_invite ?i (invites ?d) = []"
    by (simp add: destroy_invite_def example_db_def)
  show ?thesis
    using rejectInvitation_destroys_then_fails [OF h1 h2] h2 gone by simp
qed

subsection \<open>updateOrganizationMember sends no response\<close>

text \<open>
  When an owner updates the role of a member and no datastore call throws, the role is
  written (an absent role leaves it as it was) and no response is sent.
\<close>

theorem updated_member_gets_no_response:
  assumes "throws_at e = None"
    and "\<not> not_owner (findOne_organization_member (organization_members d) (m_id r) (m_user r))"
    and "findOne_organization_member (organization_members d) (m_id r) (m_userId r) = Some m"
  shows "updateOrganizationMember e r d =
    (None, d\<lparr>organization_members :=
               save_member (m\<lparr>om_role := upd (m_role r) (om_role m)\<rparr>) (organization_members d)\<rparr>)"
  using assms by (simp add: updateOrganizationMember_def thrown_def)

text \<open>
  Ada makes Bob an owner.
\<close>

theorem updated_member_gets_no_response_witness:
  "fst (updateOrganizationMember (example_env 0 None)
          \<lparr>m_id = 5, m_user = 1, m_userId = 2, m_role = Given ''owner''\<rparr> (example_db [])) = None
   \<and> map om_role (organization_members
        (snd (updateOrganizationMember (example_env 0 None)
          \<lparr>m_id = 5, m_user = 1, m_userId = 2, m_role = Given ''owner''\<rparr> (example_db []))))
      = [''owner'', ''owner'']"
proof -
  let ?e = "example_env 0 None"
  let ?r = "\<lparr>m_id = 5, m_user = 1, m_userId = 2, m_role = Given ''owner''\<rparr>"
  let ?d = "example_db []"
  let ?m = "\<lparr>om_id = 21, om_organizationId = 5, om_userId = 2, om_role = ''member''\<rparr>"
  have h1: "throws_at ?e = None" by (simp add: organization_defs)
  have h2: "\<not> not_owner (findOne_organization_member (organization_members ?d) (m_id ?r) (m_user ?r))"
    by (simp add: organization_defs)
  have h3: "findOne_organization_member (organization_members ?d) (m_id ?r) (m_userId ?r) = Some ?m"
    by (simp add: organization_defs)
  show ?thesis
    using updated_member_gets_no_response [OF h1 h2 h3]
    by (simp add: save_member_def example_db_def)
qed

end
